theory Spec2Isabelle
  imports Main
begin

section \<open>Strings as the source uses them\<close>

text \<open>
  JavaScript strings are modelled as \<open>string\<close> (a list of 8-bit code units).
  \<open>startsWith\<close>, \<open>endsWith\<close> and \<open>includes\<close> (here \<open>includesStr\<close>) are the methods of
  \<open>String.prototype\<close> with the same names.
\<close>

definition startsWith :: "string \<Rightarrow> string \<Rightarrow> bool" where
  "startsWith s p = (take (length p) s = p)"

definition endsWith :: "string \<Rightarrow> string \<Rightarrow> bool" where
  "endsWith s p = (length p \<le> length s \<and> drop (length s - length p) s = p)"

fun includesStr :: "string \<Rightarrow> string \<Rightarrow> bool" where
  "includesStr [] p = (p = [])"
| "includesStr (c # cs) p = (startsWith (c # cs) p \<or> includesStr cs p)"

text \<open>
  \<open>s.substring(0, s.lastIndexOf('/'))\<close>: everything before the last slash; when
  there is no slash \<open>lastIndexOf\<close> is \<open>-1\<close>, which \<open>substring\<close> clamps to 0,
  so the result is the empty string.
\<close>

definition beforeLastSlash :: "string \<Rightarrow> string" where
  "beforeLastSlash s =
     (if CHR ''/'' \<in> set s
      then take (length s - Suc (length (takeWhile (\<lambda>c. c \<noteq> CHR ''/'') (rev s)))) s
      else [])"

text \<open>\<open>s.split('/').pop()\<close>: the segment after the last slash (all of \<open>s\<close> without one).\<close>

definition afterLastSlash :: "string \<Rightarrow> string" where
  "afterLastSlash s = rev (takeWhile (\<lambda>c. c \<noteq> CHR ''/'') (rev s))"

section \<open>The file tree (types/FileNode.ts)\<close>

datatype NodeType = TFile | TFolder

text \<open>
  \<open>content\<close> and \<open>children\<close> are optional fields of the interface; \<open>None\<close> is
  the absent field. \<open>id\<close> and \<open>type\<close> are renamed \<open>id_node\<close> and \<open>type_node\<close>.
\<close>

datatype FileNode =
  FileNode (id_node: string) (name: string) (type_node: NodeType)
    (content: "string option") (children: "FileNode list option") (fullPath: string)

section \<open>utils/defaultValues.ts\<close>

definition getDefaultValue :: "string \<Rightarrow> string" where
  "getDefaultValue lang =
     (if lang = ''html'' then ''<div></div>''
      else if lang = ''javascript'' then ''// Start coding here''
      else if lang = ''css'' then ''/* Start styling here */\<newline>''
      else [])"

definition getLanguageFromFile :: "string \<Rightarrow> string" where
  "getLanguageFromFile fileName =
     (if endsWith fileName ''.jsx'' then ''javascriptreact''
      else if endsWith fileName ''.js'' then ''javascript''
      else if endsWith fileName ''.html'' then ''html''
      else if endsWith fileName ''.css'' then ''css''
      else ''plaintext'')"

section \<open>The session state and its reducer (context/EditorContext.tsx)\<close>

record OpenFile =
  node :: FileNode
  dirty :: bool

record State =
  fileTree :: FileNode
  selectedFile :: "FileNode option"
  fileContent :: string
  language :: string
  openFiles :: "OpenFile list"
  activeFile :: "FileNode option"
  lastHtmlFile :: "FileNode option"
  showPreview :: bool

datatype Action =
    SELECT_FILE FileNode
  | UPDATE_CONTENT string
  | ADD_NODE string FileNode
  | RENAME_NODE string string
  | DELETE_NODE string
  | OPEN_FILE FileNode
  | SET_ACTIVE_FILE FileNode
  | CLOSE_FILE FileNode
  | SAVE_FILE string
  | SET_SHOW_PREVIEW bool

text \<open>
  \<open>findNodeById\<close>: the node itself when the id matches, otherwise the first hit among
  the children in order (\<open>findNodeByIdIn\<close> is the \<open>for\<close> loop over them).
\<close>

fun findNodeById :: "FileNode \<Rightarrow> string \<Rightarrow> FileNode option"
  and findNodeByIdIn :: "FileNode list \<Rightarrow> string \<Rightarrow> FileNode option" where
  "findNodeById (FileNode i nm ty co None fp) k =
     (if i = k then Some (FileNode i nm ty co None fp) else None)"
| "findNodeById (FileNode i nm ty co (Some cs) fp) k =
     (if i = k then Some (FileNode i nm ty co (Some cs) fp) else findNodeByIdIn cs k)"
| "findNodeByIdIn [] k = None"
| "findNodeByIdIn (c # cs) k =
     (case findNodeById c k of Some found \<Rightarrow> Some found | None \<Rightarrow> findNodeByIdIn cs k)"

fun updateNodeContent :: "FileNode \<Rightarrow> string \<Rightarrow> string \<Rightarrow> FileNode" where
  "updateNodeContent (FileNode i nm ty co ch fp) k c =
     (if i = k then FileNode i nm ty (Some c) ch fp
      else case ch of
             Some cs \<Rightarrow> FileNode i nm ty co (Some (map (\<lambda>child. updateNodeContent child k c) cs)) fp
           | None \<Rightarrow> FileNode i nm ty co ch fp)"

text \<open>
  The two anchored replacements of \<open>assignFullPaths\<close>.
  \<open>/^(development\/)+project\/development\//\<close> and \<open>/^(development\/)+/\<close>, each
  replaced by \<open>development/\<close>. The group repeats greedily; since the text after the
  group starts with \<open>p\<close> in the first pattern, giving back a repetition can never make
  it match, so the only candidate is the maximal run of \<open>development/\<close> prefixes.
\<close>

fun stripDevelopment :: "nat \<Rightarrow> string \<Rightarrow> string" where
  "stripDevelopment 0 s = s"
| "stripDevelopment (Suc n) s =
     (if startsWith s ''development/'' then stripDevelopment n (drop 12 s) else s)"

definition replaceDevProject :: "string \<Rightarrow> string" where
  "replaceDevProject s =
     (let r = stripDevelopment (length s) s in
      if startsWith s ''development/'' \<and> startsWith r ''project/development/''
      then ''development/'' @ drop 20 r else s)"

definition replaceDevRun :: "string \<Rightarrow> string" where
  "replaceDevRun s =
     (if startsWith s ''development/''
      then ''development/'' @ stripDevelopment (length s) s else s)"

definition assignedPath :: "string \<Rightarrow> string \<Rightarrow> string" where
  "assignedPath nm base =
     (let path = (if base \<noteq> [] \<and> nm \<noteq> ''development'' then base @ ''/'' @ nm else nm);
          fp = (if nm = ''development'' then ''development'' else ''development/'' @ path)
      in replaceDevRun (replaceDevProject fp))"

fun assignFullPaths :: "FileNode \<Rightarrow> string \<Rightarrow> FileNode" where
  "assignFullPaths (FileNode i nm ty co ch fp) base =
     (let fullPath' = assignedPath nm base in
      FileNode i nm ty co
        (case ch of
           None \<Rightarrow> None
         | Some cs \<Rightarrow>
             Some (map (\<lambda>child. assignFullPaths child
                         (if fullPath' = ''development'' then [] else fullPath')) cs))
        fullPath')"

text \<open>
  \<open>update\<close>, the local function of the reducer; it reads the action from the closure.
  \<open>None\<close> is the \<open>null\<close> a deleted node is mapped to, which the parent filters out.
\<close>

fun update :: "Action \<Rightarrow> FileNode \<Rightarrow> FileNode option" where
  "update a (FileNode i nm ty co ch fp) =
     (case (case a of
              ADD_NODE parentId newNode \<Rightarrow>
                if i = parentId
                then Some (Some (FileNode i nm ty co
                       (Some ((case ch of None \<Rightarrow> [] | Some cs \<Rightarrow> cs) @ [assignFullPaths newNode fp]))
                       fp))
                else None
            | RENAME_NODE k newName \<Rightarrow>
                if i = k
                then Some (Some (FileNode i newName ty co ch (beforeLastSlash fp @ ''/'' @ newName)))
                else None
            | DELETE_NODE k \<Rightarrow> if i = k then Some None else None
            | _ \<Rightarrow> None) of
        Some r \<Rightarrow> r
      | None \<Rightarrow>
          (case ch of
             Some cs \<Rightarrow>
               Some (FileNode i nm ty co
                 (Some (map the (filter (\<lambda>n. n \<noteq> None) (map (update a) cs)))) fp)
           | None \<Rightarrow> Some (FileNode i nm ty co ch fp)))"

definition syncOpenFiles :: "State \<Rightarrow> FileNode \<Rightarrow> OpenFile list" where
  "syncOpenFiles state newTree =
     map the (filter (\<lambda>x. x \<noteq> None)
       (map (\<lambda>f. case findNodeById newTree (id_node (node f)) of
                    Some updatedNode \<Rightarrow> Some \<lparr>node = updatedNode, dirty = dirty f\<rparr>
                  | None \<Rightarrow> None)
            (openFiles state)))"

definition contentOr :: "FileNode \<Rightarrow> string \<Rightarrow> string" where
  "contentOr file d = (case content file of Some c \<Rightarrow> c | None \<Rightarrow> d)"

definition lastNode :: "OpenFile list \<Rightarrow> FileNode option" where
  "lastNode fs = (if fs = [] then None else Some (node (last fs)))"

definition hasId :: "FileNode option \<Rightarrow> string \<Rightarrow> bool" where
  "hasId f k = (case f of Some n \<Rightarrow> id_node n = k | None \<Rightarrow> False)"

definition withName :: "FileNode \<Rightarrow> string \<Rightarrow> FileNode" where
  "withName n newName =
     FileNode (id_node n) newName (type_node n) (content n) (children n) (fullPath n)"

definition withContent :: "FileNode \<Rightarrow> string \<Rightarrow> FileNode" where
  "withContent n c =
     FileNode (id_node n) (name n) (type_node n) (Some c) (children n) (fullPath n)"

definition treeEdit :: "State \<Rightarrow> Action \<Rightarrow> State" where
  "treeEdit state a =
     (let newTree = update a (fileTree state);
          tree' = (case newTree of Some t \<Rightarrow> t | None \<Rightarrow> fileTree state);
          newOpenFiles = syncOpenFiles state tree'
      in state\<lparr>
           fileTree := tree',
           openFiles :=
             (case a of
                RENAME_NODE k newName \<Rightarrow>
                  map (\<lambda>f. if id_node (node f) = k then f\<lparr>node := withName (node f) newName\<rparr> else f)
                    newOpenFiles
              | DELETE_NODE k \<Rightarrow> filter (\<lambda>f. id_node (node f) \<noteq> k) newOpenFiles
              | _ \<Rightarrow> newOpenFiles),
           activeFile :=
             (case a of
                RENAME_NODE k newName \<Rightarrow>
                  if hasId (activeFile state) k
                  then map_option (\<lambda>n. withName n newName) (activeFile state)
                  else activeFile state
              | DELETE_NODE k \<Rightarrow>
                  if hasId (activeFile state) k then lastNode newOpenFiles else activeFile state
              | _ \<Rightarrow> activeFile state),
           selectedFile :=
             (case a of
                RENAME_NODE k newName \<Rightarrow>
                  if hasId (selectedFile state) k
                  then map_option (\<lambda>n. withName n newName) (selectedFile state)
                  else selectedFile state
              | DELETE_NODE k \<Rightarrow>
                  if hasId (selectedFile state) k then None else selectedFile state
              | _ \<Rightarrow> selectedFile state),
           lastHtmlFile :=
             (case a of
                DELETE_NODE k \<Rightarrow>
                  if hasId (lastHtmlFile state) k then None else lastHtmlFile state
              | _ \<Rightarrow> lastHtmlFile state)\<rparr>)"

fun reducer :: "State \<Rightarrow> Action \<Rightarrow> State" where
  "reducer state (SELECT_FILE file) =
     (let lang = getLanguageFromFile (name file) in
      state\<lparr>selectedFile := Some file,
            fileContent := contentOr file (getDefaultValue lang),
            language := lang\<rparr>)"
| "reducer state (UPDATE_CONTENT payload) =
     (case activeFile state of
        None \<Rightarrow> state
      | Some af \<Rightarrow>
          state\<lparr>fileContent := payload,
                activeFile := Some (withContent af payload),
                openFiles :=
                  map (\<lambda>f. if id_node (node f) = id_node af then f\<lparr>dirty := True\<rparr> else f)
                    (openFiles state),
                selectedFile :=
                  (if hasId (selectedFile state) (id_node af)
                   then map_option (\<lambda>n. withContent n payload) (selectedFile state)
                   else selectedFile state)\<rparr>)"
| "reducer state (SAVE_FILE payload) =
     (if \<not> hasId (activeFile state) payload then state
      else
        let newTree = updateNodeContent (fileTree state) payload (fileContent state);
            newOpenFiles = syncOpenFiles state newTree
        in state\<lparr>fileTree := newTree,
                 openFiles :=
                   map (\<lambda>f. if id_node (node f) = payload then f\<lparr>dirty := False\<rparr> else f)
                     newOpenFiles\<rparr>)"
| "reducer state (ADD_NODE parentId newNode) = treeEdit state (ADD_NODE parentId newNode)"
| "reducer state (RENAME_NODE k newName) = treeEdit state (RENAME_NODE k newName)"
| "reducer state (DELETE_NODE k) = treeEdit state (DELETE_NODE k)"
| "reducer state (OPEN_FILE file) =
     (if type_node file \<noteq> TFile then state
      else
        let lang = getLanguageFromFile (name file) in
        state\<lparr>openFiles :=
                (if list_ex (\<lambda>f. id_node (node f) = id_node file) (openFiles state)
                 then openFiles state
                 else openFiles state @ [\<lparr>node = file, dirty = False\<rparr>]),
              activeFile := Some file,
              fileContent := contentOr file (getDefaultValue lang),
              language := lang,
              selectedFile := Some file,
              lastHtmlFile :=
                (if endsWith (name file) ''.html'' then Some file else lastHtmlFile state)\<rparr>)"
| "reducer state (SET_ACTIVE_FILE file) =
     (let lang = getLanguageFromFile (name file) in
      state\<lparr>activeFile := Some file,
            fileContent := contentOr file (getDefaultValue lang),
            language := lang,
            selectedFile := Some file,
            lastHtmlFile :=
              (if endsWith (name file) ''.html'' then Some file else lastHtmlFile state)\<rparr>)"
| "reducer state (CLOSE_FILE file) =
     (let newOpenFiles = filter (\<lambda>f. id_node (node f) \<noteq> id_node file) (openFiles state);
          newActiveFile =
            (if hasId (activeFile state) (id_node file) then lastNode newOpenFiles
             else activeFile state);
          lang = (case newActiveFile of
                    Some n \<Rightarrow> getLanguageFromFile (name n) | None \<Rightarrow> ''javascript'')
      in state\<lparr>openFiles := newOpenFiles,
               activeFile := newActiveFile,
               fileContent :=
                 (case newActiveFile of
                    Some n \<Rightarrow> contentOr n (getDefaultValue lang)
                  | None \<Rightarrow> getDefaultValue lang),
               language := lang,
               selectedFile := newActiveFile,
               lastHtmlFile :=
                 (if hasId (lastHtmlFile state) (id_node file) then None
                  else lastHtmlFile state)\<rparr>)"
| "reducer state (SET_SHOW_PREVIEW b) = state\<lparr>showPreview := b\<rparr>"

text \<open>
  The initial state when nothing has been saved in local storage: the default tree with
  its paths assigned, no open file, no active file, preview hidden.
\<close>

definition defaultTree :: FileNode where
  \<open>defaultTree =
     FileNode ''root'' ''project'' TFolder None
       (Some [FileNode ''development-folder'' ''development'' TFolder None
          (Some [FileNode ''index-html'' ''index.html'' TFile
                   (Some (''<!DOCTYPE html>\<newline><html>\<newline><head>\<newline>'' @
                          ''    <link href="styles.css" rel="stylesheet">\<newline>'' @
                          ''</head>\<newline><body>\<newline>'' @
                          ''    <h1>Welcome</h1>\<newline></body>\<newline></html>''))
                   None ''development/index.html'',
                 FileNode ''styles-css'' ''styles.css'' TFile
                   (Some (''body {\<newline>    background-color: white;\<newline>}\<newline>'' @
                          ''h1 {\<newline>    color: black;\<newline>}''))
                   None ''development/styles.css''])
          ''development''])
       ''development''\<close>

definition initialState :: State where
  "initialState =
     \<lparr>fileTree = assignFullPaths defaultTree [],
      selectedFile = None,
      fileContent = [],
      language = ''javascript'',
      openFiles = [],
      activeFile = None,
      lastHtmlFile = None,
      showPreview = False\<rparr>"

section \<open>What the tree stores\<close>

text \<open>
  \<open>storedContents\<close> lists, in document order, the id of every node of a tree with the
  content stored for it. \<open>added\<close> is what the node carried by an \<open>ADD_NODE\<close> action
  stores; \<open>survivors\<close> names the children list that \<open>update\<close> rebuilds.
\<close>

fun storedContents :: "FileNode \<Rightarrow> (string \<times> string option) list" where
  "storedContents (FileNode i nm ty co ch fp) =
     (i, co) # (case ch of None \<Rightarrow> [] | Some cs \<Rightarrow> concat (map storedContents cs))"

definition added :: "Action \<Rightarrow> (string \<times> string option) set" where
  "added a = (case a of ADD_NODE p m \<Rightarrow> set (storedContents m) | _ \<Rightarrow> {})"

definition survivors :: "Action \<Rightarrow> FileNode list \<Rightarrow> FileNode list" where
  "survivors a cs = map the (filter (\<lambda>n. n \<noteq> None) (map (update a) cs))"

text \<open>A session in which a folder \<open>site\<close> holding an HTML file was added and the file opened.\<close>

definition siteIndex :: FileNode where
  "siteIndex =
     FileNode ''site-index'' ''index.html'' TFile (Some ''<html></html>'') None
       ''development/site/index.html''"

definition siteFolder :: FileNode where
  "siteFolder =
     FileNode ''site-folder'' ''site'' TFolder None (Some [siteIndex]) ''development/site''"

definition siteSession :: State where
  "siteSession =
     reducer (reducer initialState (ADD_NODE ''development-folder'' siteFolder))
       (OPEN_FILE siteIndex)"

section \<open>JavaScript string and map helpers used by the preview (components/CodeEditor.tsx)\<close>

text \<open>
  \<open>str.replace(pattern, replacement)\<close> with a string pattern replaces the first
  occurrence only, and the replacement string is expanded: \<open>$$\<close> is a dollar sign,
  \<open>$&\<close> the matched text, \<open>$`\<close> the text before the match, \<open>$'\<close> the text
  after it; with a string pattern there are no groups, so any other \<open>$\<close> stays.
\<close>

fun expandDollar :: "string \<Rightarrow> string \<Rightarrow> string \<Rightarrow> string \<Rightarrow> string" where
  "expandDollar matched pre post [] = []"
| "expandDollar matched pre post [c] = [c]"
| "expandDollar matched pre post (c # d # r) =
     (if c = CHR ''$'' then
        (if d = CHR ''$'' then CHR ''$'' # expandDollar matched pre post r
         else if d = CHR ''&'' then matched @ expandDollar matched pre post r
         else if d = CHR ''`'' then pre @ expandDollar matched pre post r
         else if d = CHR 0x27 then post @ expandDollar matched pre post r
         else c # expandDollar matched pre post (d # r))
      else c # expandDollar matched pre post (d # r))"

fun replaceFirstFrom :: "string \<Rightarrow> string \<Rightarrow> string \<Rightarrow> string \<Rightarrow> string" where
  "replaceFirstFrom pre pat rep [] =
     (if pat = [] then rev pre @ expandDollar pat (rev pre) [] rep else rev pre)"
| "replaceFirstFrom pre pat rep (c # cs) =
     (if startsWith (c # cs) pat
      then rev pre @ expandDollar pat (rev pre) (drop (length pat) (c # cs)) rep
             @ drop (length pat) (c # cs)
      else replaceFirstFrom (c # pre) pat rep cs)"

definition replaceFirst :: "string \<Rightarrow> string \<Rightarrow> string \<Rightarrow> string" where
  "replaceFirst pat rep s = replaceFirstFrom [] pat rep s"

text \<open>
  A \<open>Map<string, string>\<close> is an association list in insertion order: \<open>set\<close> on a
  present key overwrites in place, on a new key appends; \<open>get\<close> is \<open>map_of\<close>.
\<close>

type_synonym fmap = "(string \<times> string) list"

definition mapHas :: "fmap \<Rightarrow> string \<Rightarrow> bool" where
  "mapHas m k = (map_of m k \<noteq> None)"

fun mapSet :: "string \<Rightarrow> string \<Rightarrow> fmap \<Rightarrow> fmap" where
  "mapSet k v [] = [(k, v)]"
| "mapSet k v ((k', v') # m) = (if k' = k then (k, v) # m else (k', v') # mapSet k v m)"

text \<open>\<open>a || b\<close> on values that are a string or \<open>undefined\<close> (\<open>None\<close>): the empty string is falsy.\<close>

definition truthy :: "string option \<Rightarrow> bool" where
  "truthy a = (case a of Some (c # cs) \<Rightarrow> True | _ \<Rightarrow> False)"

definition jsOr :: "string option \<Rightarrow> string option \<Rightarrow> string option" where
  "jsOr a b = (if truthy a then a else b)"

text \<open>\<open>resolvePath\<close>, with its local \<open>normalize\<close>: runs of slashes collapse to one, then one trailing slash goes.\<close>

fun collapseSlashes :: "string \<Rightarrow> string" where
  "collapseSlashes [] = []"
| "collapseSlashes [c] = [c]"
| "collapseSlashes (c # d # r) =
     (if c = CHR ''/'' \<and> d = CHR ''/'' then collapseSlashes (d # r) else c # collapseSlashes (d # r))"

definition normalize :: "string \<Rightarrow> string" where
  "normalize path =
     (let p = collapseSlashes path in if endsWith p ''/'' then butlast p else p)"

definition stripDotSlash :: "string \<Rightarrow> string" where
  "stripDotSlash r = (if startsWith r ''./'' then drop 2 r else r)"

definition resolvePath :: "string \<Rightarrow> string \<Rightarrow> string" where
  "resolvePath basePath relativePath = normalize basePath @ ''/'' @ stripDotSlash relativePath"

text \<open>The fallback path of the tag rewriting: \<open>`${htmlDir}/${src.replace(/^\.\//, '')}`\<close>.\<close>

definition fallbackPath :: "string \<Rightarrow> string \<Rightarrow> string" where
  "fallbackPath htmlDir ref = htmlDir @ ''/'' @ stripDotSlash ref"

section \<open>The regular expressions of the preview\<close>

text \<open>
  The three patterns of the component are sequences of single-character atoms, each
  taken once or under a greedy star, with one capture group. \<open>Ci c\<close> is the literal
  \<open>c\<close> under the \<open>i\<close> flag, \<open>Space\<close> is \<open>\s\<close>, \<open>NotGt\<close> is \<open>[^>]\<close>,
  \<open>NotQuote\<close> is \<open>[^"']\<close>, \<open>Quote\<close> is \<open>["']\<close>. \<open>Mark\<close> is a parenthesis of
  the capture group. \<open>matchItems\<close> is the backtracking matcher at one position: a star
  takes as many characters as it can and gives them back one at a time. It returns the
  text remaining at each mark and after the match.
\<close>

datatype cls = Ci char | Space | NotGt | NotQuote | Quote

datatype item = One cls | Star cls | Mark

definition upperOf :: "char \<Rightarrow> char" where
  "upperOf c =
     (case map_of (zip ''abcdefghijklmnopqrstuvwxyz'' ''ABCDEFGHIJKLMNOPQRSTUVWXYZ'') c of
        Some u \<Rightarrow> u | None \<Rightarrow> c)"

fun inCls :: "cls \<Rightarrow> char \<Rightarrow> bool" where
  "inCls (Ci p) c = (upperOf c = upperOf p)"
| "inCls Space c = (c \<in> set [CHR 0x09, CHR 0x0A, CHR 0x0B, CHR 0x0C, CHR 0x0D, CHR 0x20, CHR 0xA0])"
| "inCls NotGt c = (c \<noteq> CHR ''>'')"
| "inCls NotQuote c = (c \<noteq> CHR 0x22 \<and> c \<noteq> CHR 0x27)"
| "inCls Quote c = (c = CHR 0x22 \<or> c = CHR 0x27)"

fun matchItems :: "item list \<Rightarrow> string \<Rightarrow> (string list \<times> string) option" where
  "matchItems [] s = Some ([], s)"
| "matchItems (Mark # r) s =
     (case matchItems r s of None \<Rightarrow> None | Some (ms, t) \<Rightarrow> Some (s # ms, t))"
| "matchItems (One k # r) [] = None"
| "matchItems (One k # r) (x # xs) = (if inCls k x then matchItems r xs else None)"
| "matchItems (Star k # r) [] = matchItems r []"
| "matchItems (Star k # r) (x # xs) =
     (if inCls k x
      then (case matchItems (Star k # r) xs of
              Some m \<Rightarrow> Some m
            | None \<Rightarrow> matchItems r (x # xs))
      else matchItems r (x # xs))"

text \<open>Alternatives are tried in order at the position.\<close>

fun matchRegex :: "item list list \<Rightarrow> string \<Rightarrow> (string list \<times> string) option" where
  "matchRegex [] s = None"
| "matchRegex (r # rs) s =
     (case matchItems r s of Some m \<Rightarrow> Some m | None \<Rightarrow> matchRegex rs s)"

definition lit :: "string \<Rightarrow> item list" where
  "lit s = map (\<lambda>c. One (Ci c)) s"

definition plus :: "cls \<Rightarrow> item list" where
  "plus k = [One k, Star k]"

text \<open>\<open>/<link\s+[^>]*href=["']([^"']+)["'][^>]*rel=["']stylesheet["'][^>]*>/gi\<close>\<close>

definition linkRegex :: "item list list" where
  "linkRegex =
     [lit ''<link'' @ plus Space @ [Star NotGt] @ lit ''href='' @ [One Quote, Mark]
        @ plus NotQuote @ [Mark, One Quote, Star NotGt] @ lit ''rel='' @ [One Quote]
        @ lit ''stylesheet'' @ [One Quote, Star NotGt] @ lit ''>'']"

text \<open>\<open>/<script\s+[^>]*src=["']([^"']+)["'][^>]*>/gi\<close>\<close>

definition scriptRegex :: "item list list" where
  "scriptRegex =
     [lit ''<script'' @ plus Space @ [Star NotGt] @ lit ''src='' @ [One Quote, Mark]
        @ plus NotQuote @ [Mark, One Quote, Star NotGt] @ lit ''>'']"

text \<open>\<open>/<script[^>]*src=["'][^"']*["'][^>]*>|<\/script>/gi\<close>\<close>

definition stripRegex :: "item list list" where
  "stripRegex =
     [lit ''<script'' @ [Star NotGt] @ lit ''src='' @ [One Quote, Star NotQuote, One Quote,
        Star NotGt] @ lit ''>'',
      lit ''</script>'']"

text \<open>
  A global replace cuts the text into the characters outside every match and the
  matches, found left to right, each search resuming where the last match ended.
  A \<open>Hit\<close> carries the matched text and the text of group 1.
\<close>

datatype seg = Chr char | Hit string string

definition capture1 :: "string list \<Rightarrow> string" where
  "capture1 ms = (case ms of s1 # s2 # _ \<Rightarrow> take (length s1 - length s2) s1 | _ \<Rightarrow> [])"

function segments :: "item list list \<Rightarrow> string \<Rightarrow> seg list" where
  "segments rx [] = []"
| "segments rx (c # cs) =
     (case matchRegex rx (c # cs) of
        None \<Rightarrow> Chr c # segments rx cs
      | Some (ms, rest) \<Rightarrow>
          if length rest < Suc (length cs)
          then Hit (take (Suc (length cs) - length rest) (c # cs)) (capture1 ms) # segments rx rest
          else Chr c # segments rx cs)"
  by pat_completeness auto
termination
  by (relation "measure (\<lambda>(rx, s). length s)") auto

text \<open>Replacing every match by the empty string keeps the characters outside the matches.\<close>

fun outside :: "seg list \<Rightarrow> string" where
  "outside [] = []"
| "outside (Chr c # r) = c # outside r"
| "outside (Hit m g # r) = outside r"

text \<open>
  A value thrown by JavaScript code: an \<open>Error\<close> instance with its message, or any
  other value.
\<close>

datatype thrown = ErrorObject string | OtherValue

text \<open>
  Replacing every match by what a callback returns. The callback runs once per match, in
  order, and may change state or throw; a throw ends the replace.
\<close>

fun rewriteSegs ::
  "(string \<Rightarrow> string \<Rightarrow> 'st \<Rightarrow> (thrown + string) \<times> 'st) \<Rightarrow> seg list \<Rightarrow> 'st
     \<Rightarrow> (thrown + string) \<times> 'st" where
  "rewriteSegs f [] st = (Inr [], st)"
| "rewriteSegs f (Chr c # r) st =
     (case rewriteSegs f r st of
        (Inl e, st') \<Rightarrow> (Inl e, st')
      | (Inr out, st') \<Rightarrow> (Inr (c # out), st'))"
| "rewriteSegs f (Hit m g # r) st =
     (case f m g st of
        (Inl e, st1) \<Rightarrow> (Inl e, st1)
      | (Inr rep, st1) \<Rightarrow>
          (case rewriteSegs f r st1 of
             (Inl e, st2) \<Rightarrow> (Inl e, st2)
           | (Inr out, st2) \<Rightarrow> (Inr (rep @ out), st2)))"

section \<open>The preview component's state\<close>

text \<open>
  \<open>Preview\<close> holds what a pass reads and writes outside its own variables: the
  browser's store of object URLs (\<open>URL.createObjectURL\<close> adds an entry; the component
  never calls \<open>URL.revokeObjectURL\<close>, so nothing removes one), the refs
  \<open>assetUrlMapRef\<close>, \<open>activeScriptRef\<close>, \<open>lastRenderedHtmlRef\<close>, the React
  state \<open>consoleMessages\<close> and \<open>isBundling\<close>, whether \<open>iframeRef.current\<close> is
  set, and the frame's \<open>srcdoc\<close>.
\<close>

record Blob =
  blobText :: string
  blobType :: string

record ConsoleMessage =
  type_msg :: string
  message :: string
  file_msg :: string
  line :: int

record Preview =
  blobStore :: "(string \<times> Blob) list"
  assetUrlMap :: fmap
  activeScript :: "string option"
  lastRenderedHtml :: "string option"
  consoleMessages :: "ConsoleMessage list"
  isBundling :: bool
  iframe :: bool
  srcdoc :: string

text \<open>
  The browser returns a fresh opaque URL for every call of \<open>URL.createObjectURL\<close>;
  the model numbers them in creation order.
\<close>

fun digits :: "nat \<Rightarrow> nat \<Rightarrow> string" where
  "digits 0 n = []"
| "digits (Suc f) n =
     (if n < 10 then [''0123456789'' ! n]
      else digits f (n div 10) @ [''0123456789'' ! (n mod 10)])"

definition blobUrl :: "nat \<Rightarrow> string" where
  "blobUrl n = ''blob:'' @ digits (Suc n) n"

definition createObjectURL :: "Blob \<Rightarrow> Preview \<Rightarrow> string \<times> Preview" where
  "createObjectURL b pv =
     (let url = blobUrl (length (blobStore pv))
      in (url, pv\<lparr>blobStore := blobStore pv @ [(url, b)]\<rparr>))"

definition liveUrls :: "Preview \<Rightarrow> string set" where
  "liveUrls pv = fst ` set (blobStore pv)"

section \<open>collectFiles\<close>

definition folderPathOf :: "FileNode option \<Rightarrow> FileNode option \<Rightarrow> string" where
  "folderPathOf lastHtml active =
     (case lastHtml of
        Some l \<Rightarrow>
          if fullPath l \<noteq> [] then beforeLastSlash (fullPath l)
          else (case active of
                  Some a \<Rightarrow>
                    if endsWith (name a) ''.html'' \<and> fullPath a \<noteq> []
                    then beforeLastSlash (fullPath a) else []
                | None \<Rightarrow> [])
      | None \<Rightarrow>
          (case active of
             Some a \<Rightarrow>
               if endsWith (name a) ''.html'' \<and> fullPath a \<noteq> []
               then beforeLastSlash (fullPath a) else []
           | None \<Rightarrow> []))"

definition pathOf :: "FileNode \<Rightarrow> string \<Rightarrow> string" where
  "pathOf n base =
     (if fullPath n \<noteq> [] then fullPath n
      else if base \<noteq> [] then base @ ''/'' @ name n
      else ''development/'' @ name n)"

text \<open>\<open>traverse\<close> fills the pair (\<open>folderFiles\<close>, \<open>allFiles\<close>); \<open>traverseAll\<close> is \<open>forEach\<close>.\<close>

fun traverse :: "string \<Rightarrow> FileNode \<Rightarrow> string \<Rightarrow> fmap \<times> fmap \<Rightarrow> fmap \<times> fmap"
  and traverseAll :: "string \<Rightarrow> FileNode list \<Rightarrow> string \<Rightarrow> fmap \<times> fmap \<Rightarrow> fmap \<times> fmap" where
  "traverse folderPath (FileNode i nm ty co ch fp) base (folderFiles, allFiles) =
     (let path = pathOf (FileNode i nm ty co ch fp) base in
      if ty = TFile then
        (let text = (case co of Some c \<Rightarrow> c | None \<Rightarrow> []);
             allFiles' = mapSet path text allFiles
         in if folderPath \<noteq> [] \<and> startsWith path (folderPath @ ''/'')
            then (mapSet path text folderFiles, allFiles')
            else (folderFiles, allFiles'))
      else (case ch of
              Some cs \<Rightarrow> traverseAll folderPath cs path (folderFiles, allFiles)
            | None \<Rightarrow> (folderFiles, allFiles)))"
| "traverseAll folderPath [] base maps = maps"
| "traverseAll folderPath (c # cs) base maps =
     traverseAll folderPath cs base (traverse folderPath c base maps)"

definition collectFiles :: "FileNode \<Rightarrow> FileNode option \<Rightarrow> FileNode option \<Rightarrow> fmap \<times> fmap" where
  "collectFiles tree active lastHtml =
     (case children tree of
        None \<Rightarrow> ([], [])
      | Some roots \<Rightarrow>
          (case List.find (\<lambda>n. id_node n = ''development-folder'') roots of
             None \<Rightarrow> ([], [])
           | Some dev \<Rightarrow>
               (case children dev of
                  None \<Rightarrow> ([], [])
                | Some cs \<Rightarrow> traverseAll (folderPathOf lastHtml active) cs [] ([], []))))"

section \<open>The instrumentation snippet\<close>

definition getConsoleOverrideScript :: string where
  \<open>getConsoleOverrideScript = concat
    [''\<newline>'',
     ''    <script>\<newline>'',
     ''      (function() {\<newline>'',
     ''        const originalConsole = window.console;\<newline>'',
     ''        const newConsole = {\<newline>'',
     ''          log: (...args) => {\<newline>'',
     ''            const stack = new Error().stack || '' @ [CHR 0x27, CHR 0x27] @ '';\<newline>'',
     ''            try {\<newline>'',
     ''              window.parent.postMessage({ type: 'debug', message: 'Stack trace for console.log: ' + stack }, '*');\<newline>'',
     ''            } catch (e) {}\<newline>'',
     ''            const lines = stack.split('' @ [CHR 0x27, CHR 0x5C] @ ''n');\<newline>'',
     ''            let line = 0;\<newline>'',
     ''            for (let i = 1; i < lines.length; i++) {\<newline>'',
     ''              try {\<newline>'',
     ''                window.parent.postMessage({ type: 'debug', message: 'Processing line ' + i + ': ' + lines[i] }, '*');\<newline>'',
     ''              } catch (e) {}\<newline>'',
     ''              if (lines[i].includes('about:srcdoc')) continue;\<newline>'',
     ''              const trimmedLine = lines[i].trim();\<newline>'',
     ''              if (trimmedLine.includes('blob:')) {\<newline>'',
     ''                const match = trimmedLine.match(/blob:.*:('' @ [CHR 0x5C] @ ''d+):'' @ [CHR 0x5C] @ ''d+'' @ [CHR 0x5C] @ ''s*$/);\<newline>'',
     ''                try {\<newline>'',
     ''                  window.parent.postMessage({ type: 'debug', message: 'Match result for line ' + i + ': ' + (match ? JSON.stringify(match) : 'null') }, '*');\<newline>'',
     ''                } catch (e) {}\<newline>'',
     ''                if (match) {\<newline>'',
     ''                  line = parseInt(match[1], 10);\<newline>'',
     ''                  break;\<newline>'',
     ''                }\<newline>'',
     ''              }\<newline>'',
     ''            }\<newline>'',
     ''            try {\<newline>'',
     ''              window.parent.postMessage({ type: 'console', method: 'log', args, line }, '*');\<newline>'',
     ''            } catch (e) {\<newline>'',
     ''              originalConsole.error('Failed to postMessage for console.log:', e);\<newline>'',
     ''            }\<newline>'',
     ''            originalConsole.log(...args);\<newline>'',
     ''          },\<newline>'',
     ''          info: (...args) => {\<newline>'',
     ''            const stack = new Error().stack || '' @ [CHR 0x27, CHR 0x27] @ '';\<newline>'',
     ''            try {\<newline>'',
     ''              window.parent.postMessage({ type: 'debug', message: 'Stack trace for console.info: ' + stack }, '*');\<newline>'',
     ''            } catch (e) {}\<newline>'',
     ''            const lines = stack.split('' @ [CHR 0x27, CHR 0x5C] @ ''n');\<newline>'',
     ''            let line = 0;\<newline>'',
     ''            for (let i = 1; i < lines.length; i++) {\<newline>'',
     ''              try {\<newline>'',
     ''                window.parent.postMessage({ type: 'debug', message: 'Processing line ' + i + ': ' + lines[i] }, '*');\<newline>'',
     ''              } catch (e) {}\<newline>'',
     ''              if (lines[i].includes('about:srcdoc')) continue;\<newline>'',
     ''              const trimmedLine = lines[i].trim();\<newline>'',
     ''              if (trimmedLine.includes('blob:')) {\<newline>'',
     ''                const match = trimmedLine.match(/blob:.*:('' @ [CHR 0x5C] @ ''d+):'' @ [CHR 0x5C] @ ''d+'' @ [CHR 0x5C] @ ''s*$/);\<newline>'',
     ''                try {\<newline>'',
     ''                  window.parent.postMessage({ type: 'debug', message: 'Match result for line ' + i + ': ' + (match ? JSON.stringify(match) : 'null') }, '*');\<newline>'',
     ''                } catch (e) {}\<newline>'',
     ''                if (match) {\<newline>'',
     ''                  line = parseInt(match[1], 10);\<newline>'',
     ''                  break;\<newline>'',
     ''                }\<newline>'',
     ''              }\<newline>'',
     ''            }\<newline>'',
     ''            try {\<newline>'',
     ''              window.parent.postMessage({ type: 'console', method: 'info', args, line }, '*');\<newline>'',
     ''            } catch (e) {\<newline>'',
     ''              originalConsole.error('Failed to postMessage for console.info:', e);\<newline>'',
     ''            }\<newline>'',
     ''            originalConsole.info(...args);\<newline>'',
     ''          },\<newline>'',
     ''          debug: (...args) => {\<newline>'',
     ''            const stack = new Error().stack || '' @ [CHR 0x27, CHR 0x27] @ '';\<newline>'',
     ''            try {\<newline>'',
     ''              window.parent.postMessage({ type: 'debug', message: 'Stack trace for console.debug: ' + stack }, '*');\<newline>'',
     ''            } catch (e) {}\<newline>'',
     ''            const lines = stack.split('' @ [CHR 0x27, CHR 0x5C] @ ''n');\<newline>'',
     ''            let line = 0;\<newline>'',
     ''            for (let i = 1; i < lines.length; i++) {\<newline>'',
     ''              try {\<newline>'',
     ''                window.parent.postMessage({ type: 'debug', message: 'Processing line ' + i + ': ' + lines[i] }, '*');\<newline>'',
     ''              } catch (e) {}\<newline>'',
     ''              if (lines[i].includes('about:srcdoc')) continue;\<newline>'',
     ''              const trimmedLine = lines[i].trim();\<newline>'',
     ''              if (trimmedLine.includes('blob:')) {\<newline>'',
     ''                const match = trimmedLine.match(/blob:.*:('' @ [CHR 0x5C] @ ''d+):'' @ [CHR 0x5C] @ ''d+'' @ [CHR 0x5C] @ ''s*$/);\<newline>'',
     ''                try {\<newline>'',
     ''                  window.parent.postMessage({ type: 'debug', message: 'Match result for line ' + i + ': ' + (match ? JSON.stringify(match) : 'null') }, '*');\<newline>'',
     ''                } catch (e) {}\<newline>'',
     ''                if (match) {\<newline>'',
     ''                  line = parseInt(match[1], 10);\<newline>'',
     ''                  break;\<newline>'',
     ''                }\<newline>'',
     ''              }\<newline>'',
     ''            }\<newline>'',
     ''            try {\<newline>'',
     ''              window.parent.postMessage({ type: 'console', method: 'debug', args, line }, '*');\<newline>'',
     ''            } catch (e) {\<newline>'',
     ''              originalConsole.error('Failed to postMessage for console.debug:', e);\<newline>'',
     ''            }\<newline>'',
     ''            originalConsole.debug(...args);\<newline>'',
     ''          },\<newline>'',
     ''          warn: (...args) => {\<newline>'',
     ''            const stack = new Error().stack || '' @ [CHR 0x27, CHR 0x27] @ '';\<newline>'',
     ''            try {\<newline>'',
     ''              window.parent.postMessage({ type: 'debug', message: 'Stack trace for console.warn: ' + stack }, '*');\<newline>'',
     ''            } catch (e) {}\<newline>'',
     ''            const lines = stack.split('' @ [CHR 0x27, CHR 0x5C] @ ''n');\<newline>'',
     ''            let line = 0;\<newline>'',
     ''            for (let i = 1; i < lines.length; i++) {\<newline>'',
     ''              try {\<newline>'',
     ''                window.parent.postMessage({ type: 'debug', message: 'Processing line ' + i + ': ' + lines[i] }, '*');\<newline>'',
     ''              } catch (e) {}\<newline>'',
     ''              if (lines[i].includes('about:srcdoc')) continue;\<newline>'',
     ''              const trimmedLine = lines[i].trim();\<newline>'',
     ''              if (trimmedLine.includes('blob:')) {\<newline>'',
     ''                const match = trimmedLine.match(/blob:.*:('' @ [CHR 0x5C] @ ''d+):'' @ [CHR 0x5C] @ ''d+'' @ [CHR 0x5C] @ ''s*$/);\<newline>'',
     ''                try {\<newline>'',
     ''                  window.parent.postMessage({ type: 'debug', message: 'Match result for line ' + i + ': ' + (match ? JSON.stringify(match) : 'null') }, '*');\<newline>'',
     ''                } catch (e) {}\<newline>'',
     ''                if (match) {\<newline>'',
     ''                  line = parseInt(match[1], 10);\<newline>'',
     ''                  break;\<newline>'',
     ''                }\<newline>'',
     ''              }\<newline>'',
     ''            }\<newline>'',
     ''            try {\<newline>'',
     ''              window.parent.postMessage({ type: 'console', method: 'warn', args, line }, '*');\<newline>'',
     ''            } catch (e) {\<newline>'',
     ''              originalConsole.error('Failed to postMessage for console.warn:', e);\<newline>'',
     ''            }\<newline>'',
     ''            originalConsole.warn(...args);\<newline>'',
     ''          },\<newline>'',
     ''          error: (...args) => {\<newline>'',
     ''            const stack = new Error().stack || '' @ [CHR 0x27, CHR 0x27] @ '';\<newline>'',
     ''            try {\<newline>'',
     ''              window.parent.postMessage({ type: 'debug', message: 'Stack trace for console.error: ' + stack }, '*');\<newline>'',
     ''            } catch (e) {}\<newline>'',
     ''            const lines = stack.split('' @ [CHR 0x27, CHR 0x5C] @ ''n');\<newline>'',
     ''            let line = 0;\<newline>'',
     ''            for (let i = 1; i < lines.length; i++) {\<newline>'',
     ''              try {\<newline>'',
     ''                window.parent.postMessage({ type: 'debug', message: 'Processing line ' + i + ': ' + lines[i] }, '*');\<newline>'',
     ''              } catch (e) {}\<newline>'',
     ''              if (lines[i].includes('about:srcdoc')) continue;\<newline>'',
     ''              const trimmedLine = lines[i].trim();\<newline>'',
     ''              if (trimmedLine.includes('blob:')) {\<newline>'',
     ''                const match = trimmedLine.match(/blob:.*:('' @ [CHR 0x5C] @ ''d+):'' @ [CHR 0x5C] @ ''d+'' @ [CHR 0x5C] @ ''s*$/);\<newline>'',
     ''                try {\<newline>'',
     ''                  window.parent.postMessage({ type: 'debug', message: 'Match result for line ' + i + ': ' + (match ? JSON.stringify(match) : 'null') }, '*');\<newline>'',
     ''                } catch (e) {}\<newline>'',
     ''                if (match) {\<newline>'',
     ''                  line = parseInt(match[1], 10);\<newline>'',
     ''                  break;\<newline>'',
     ''                }\<newline>'',
     ''              }\<newline>'',
     ''            }\<newline>'',
     ''            try {\<newline>'',
     ''              window.parent.postMessage({ type: 'console', method: 'error', args, line }, '*');\<newline>'',
     ''            } catch (e) {\<newline>'',
     ''              originalConsole.error('Failed to postMessage for console.error:', e);\<newline>'',
     ''            }\<newline>'',
     ''            originalConsole.error(...args);\<newline>'',
     ''          },\<newline>'',
     ''        };\<newline>'',
     ''        Object.defineProperty(window, 'console', {\<newline>'',
     ''          value: newConsole,\<newline>'',
     ''          writable: false,\<newline>'',
     ''          configurable: false,\<newline>'',
     ''        });\<newline>'',
     ''        window.addEventListener('error', (event) => {\<newline>'',
     ''          try {\<newline>'',
     ''            const stack = event.error?.stack || '' @ [CHR 0x27, CHR 0x27] @ '';\<newline>'',
     ''            try {\<newline>'',
     ''              window.parent.postMessage({ type: 'debug', message: 'Stack trace for error: ' + stack }, '*');\<newline>'',
     ''            } catch (e) {}\<newline>'',
     ''            const lines = stack.split('' @ [CHR 0x27, CHR 0x5C] @ ''n');\<newline>'',
     ''            let line = 0;\<newline>'',
     ''            for (let i = 0; i < lines.length; i++) {\<newline>'',
     ''              try {\<newline>'',
     ''                window.parent.postMessage({ type: 'debug', message: 'Processing error line ' + i + ': ' + lines[i] }, '*');\<newline>'',
     ''              } catch (e) {}\<newline>'',
     ''              if (lines[i].includes('about:srcdoc')) continue;\<newline>'',
     ''              const trimmedLine = lines[i].trim();\<newline>'',
     ''              if (trimmedLine.includes('blob:')) {\<newline>'',
     ''                const match = trimmedLine.match(/blob:.*:('' @ [CHR 0x5C] @ ''d+):'' @ [CHR 0x5C] @ ''d+'' @ [CHR 0x5C] @ ''s*$/);\<newline>'',
     ''                try {\<newline>'',
     ''                  window.parent.postMessage({ type: 'debug', message: 'Match result for error line ' + i + ': ' + (match ? JSON.stringify(match) : 'null') }, '*');\<newline>'',
     ''                } catch (e) {}\<newline>'',
     ''                if (match) {\<newline>'',
     ''                  line = parseInt(match[1], 10);\<newline>'',
     ''                  break;\<newline>'',
     ''                }\<newline>'',
     ''              }\<newline>'',
     ''            }\<newline>'',
     ''            window.parent.postMessage({\<newline>'',
     ''              type: 'error',\<newline>'',
     ''              message: event.message,\<newline>'',
     ''              stack,\<newline>'',
     ''              line,\<newline>'',
     ''            }, '*');\<newline>'',
     ''          } catch (e) {\<newline>'',
     ''            originalConsole.error('Failed to postMessage for error:', e);\<newline>'',
     ''          }\<newline>'',
     ''        });\<newline>'',
     ''      })();\<newline>'',
     ''    </script>\<newline>'',
     ''  '']\<close>

text \<open>
  No proof inspects the text of the snippet; evaluation leaves the constant folded.
\<close>

declare getConsoleOverrideScript_def [code del]

section \<open>getActiveScriptFile\<close>

fun firstScript :: "string \<Rightarrow> fmap \<Rightarrow> seg list \<Rightarrow> string option" where
  "firstScript htmlDir allFiles [] = None"
| "firstScript htmlDir allFiles (Chr c # r) = firstScript htmlDir allFiles r"
| "firstScript htmlDir allFiles (Hit m src # r) =
     (if mapHas allFiles (resolvePath htmlDir src) then Some (resolvePath htmlDir src)
      else if mapHas allFiles (fallbackPath htmlDir src) then Some (fallbackPath htmlDir src)
      else firstScript htmlDir allFiles r)"

definition getActiveScriptFile :: "string \<Rightarrow> string \<Rightarrow> fmap \<Rightarrow> string option" where
  "getActiveScriptFile htmlContent htmlDir allFiles =
     firstScript htmlDir allFiles (segments scriptRegex htmlContent)"

section \<open>The pass: bundleAndPreview\<close>

text \<open>The variables \<open>assetUrls\<close> and \<open>hasCss\<close> of a pass, which the replace callbacks write.\<close>

record Locals =
  assetUrls :: fmap
  hasCss :: bool

text \<open>
  \<open>lookupAsset\<close> is the three-tier lookup shared by the two callbacks: the resolved
  path in \<open>folderFiles\<close>, then in \<open>allFiles\<close>, then the fallback path in either map
  (\<open>folderFiles.get(p) || allFiles.get(p)\<close>). It returns the path recorded and the
  content found; the content of the third tier is \<open>undefined\<close> (\<open>None\<close>) when
  \<open>folderFiles\<close> holds the empty string and \<open>allFiles\<close> has no entry.
\<close>

definition lookupAsset :: "fmap \<Rightarrow> fmap \<Rightarrow> string \<Rightarrow> string \<Rightarrow> (string \<times> string option) option" where
  "lookupAsset folderFiles allFiles htmlDir ref =
     (let p = resolvePath htmlDir ref; fb = fallbackPath htmlDir ref in
      if mapHas folderFiles p then Some (p, map_of folderFiles p)
      else if mapHas allFiles p then Some (p, map_of allFiles p)
      else if mapHas folderFiles fb \<or> mapHas allFiles fb
      then Some (fb, jsOr (map_of folderFiles fb) (map_of allFiles fb))
      else None)"

text \<open>\<open>new Blob([content])\<close>: an \<open>undefined\<close> part is converted to the text \<open>undefined\<close>.\<close>

definition blobPart :: "string option \<Rightarrow> string" where
  "blobPart c = (case c of Some t \<Rightarrow> t | None \<Rightarrow> ''undefined'')"

definition recordAsset :: "string \<Rightarrow> string \<Rightarrow> Preview \<times> Locals \<Rightarrow> Preview \<times> Locals" where
  "recordAsset path url st =
     (fst st\<lparr>assetUrlMap := mapSet path url (assetUrlMap (fst st))\<rparr>,
      snd st\<lparr>assetUrls := mapSet path url (assetUrls (snd st))\<rparr>)"

definition rewriteLink ::
  "fmap \<Rightarrow> fmap \<Rightarrow> string \<Rightarrow> string \<Rightarrow> string \<Rightarrow> Preview \<times> Locals
     \<Rightarrow> (thrown + string) \<times> (Preview \<times> Locals)" where
  \<open>rewriteLink folderFiles allFiles htmlDir match href st =
     (case lookupAsset folderFiles allFiles htmlDir href of
        None \<Rightarrow> (Inr match, st)
      | Some (path, cssContent) \<Rightarrow>
          (let (cssUrl, pv) =
                 createObjectURL \<lparr>blobText = blobPart cssContent, blobType = ''text/css''\<rparr> (fst st)
           in (Inr (''<link rel="stylesheet" href="'' @ cssUrl @ ''">''),
               recordAsset path cssUrl (pv, snd st\<lparr>hasCss := True\<rparr>))))\<close>

definition isModule :: "string \<Rightarrow> bool" where
  "isModule jsContent = (includesStr jsContent ''import '' \<or> includesStr jsContent ''export '')"

text \<open>Calling \<open>includes\<close> on \<open>undefined\<close> throws a \<open>TypeError\<close>.\<close>

definition typeErrorIncludes :: thrown where
  "typeErrorIncludes =
     ErrorObject (''Cannot read properties of undefined (reading '' @ [CHR 0x27] @ ''includes''
                  @ [CHR 0x27] @ '')'')"

definition rewriteScript ::
  "fmap \<Rightarrow> fmap \<Rightarrow> string \<Rightarrow> string \<Rightarrow> string \<Rightarrow> Preview \<times> Locals
     \<Rightarrow> (thrown + string) \<times> (Preview \<times> Locals)" where
  \<open>rewriteScript folderFiles allFiles htmlDir match src st =
     (case lookupAsset folderFiles allFiles htmlDir src of
        None \<Rightarrow> (Inr match, st)
      | Some (path, jsContent) \<Rightarrow>
          (let (jsUrl, pv) =
                 createObjectURL
                   \<lparr>blobText = blobPart jsContent, blobType = ''application/javascript''\<rparr> (fst st);
               st' = recordAsset path jsUrl (pv, snd st)
           in case jsContent of
                None \<Rightarrow> (Inl typeErrorIncludes, st')
              | Some text \<Rightarrow>
                  (Inr (''<script'' @ (if isModule text then '' type="module"'' else [])
                          @ '' src="'' @ jsUrl @ ''"></script>''),
                   st')))\<close>

text \<open>Entry selection on the path without bundling; \<open>isHtml\<close> is \<open>k.endsWith('.html')\<close>.\<close>

definition isHtml :: "string \<Rightarrow> bool" where
  "isHtml k = endsWith k ''.html''"

definition selectEntry :: "fmap \<Rightarrow> FileNode option \<Rightarrow> FileNode option \<Rightarrow> string option" where
  "selectEntry allFiles lastHtml active =
     (let htmlEntry =
            (if (case lastHtml of Some l \<Rightarrow> fullPath l \<noteq> [] \<and> mapHas allFiles (fullPath l)
                 | None \<Rightarrow> False)
             then map_option fullPath lastHtml
             else if (case active of
                        Some a \<Rightarrow> endsWith (name a) ''.html'' \<and> fullPath a \<noteq> []
                                    \<and> mapHas allFiles (fullPath a)
                      | None \<Rightarrow> False)
             then map_option fullPath active
             else None)
      in if \<not> truthy htmlEntry then List.find isHtml (map fst allFiles) else htmlEntry)"

definition styleId :: string where
  "styleId = ''dynamic-style''"

definition emptyStyle :: string where
  \<open>emptyStyle = ''<style id="'' @ styleId @ ''"></style>''\<close>

definition placeholderDoc :: string where
  \<open>placeholderDoc =
     ''<!DOCTYPE html><html><head>'' @ getConsoleOverrideScript @ emptyStyle
       @ ''</head><body><p style="color:#fff;padding:1rem;">No HTML to preview.</p></body></html>''\<close>

text \<open>The style fallback when no stylesheet link was rewritten.\<close>

definition styleFallback :: "fmap \<Rightarrow> string \<Rightarrow> string" where
  \<open>styleFallback allFiles htmlDoc =
     (let doc = replaceFirst ''</head>'' (emptyStyle @ ''</head>'') htmlDoc in
      case List.find (\<lambda>k. endsWith k ''.css'') (map fst allFiles) of
        None \<Rightarrow> doc
      | Some cssEntry \<Rightarrow>
          if cssEntry = [] then doc
          else replaceFirst emptyStyle
                 (''<style id="'' @ styleId @ ''">'' @ blobPart (map_of allFiles cssEntry) @ ''</style>'')
                 doc)\<close>

text \<open>
  The result of the \<open>try\<close> block up to the assignment of the document: the document,
  \<open>htmlEntry\<close> and \<open>assetUrls\<close>. \<open>assembleHtml\<close> is the branch for a found entry.
\<close>

type_synonym assembled = "string \<times> string option \<times> fmap"

definition assembleHtml ::
  "fmap \<Rightarrow> fmap \<Rightarrow> string \<Rightarrow> Preview \<Rightarrow> (thrown + assembled) \<times> Preview" where
  \<open>assembleHtml folderFiles allFiles htmlEntry pv =
     (case map_of allFiles htmlEntry of
        None \<Rightarrow> (Inl (ErrorObject ''Cannot read properties of undefined (reading replace)''),
                 pv\<lparr>activeScript := None\<rparr>)
      | Some html \<Rightarrow>
          (let htmlDir = beforeLastSlash htmlEntry;
               pv1 = pv\<lparr>activeScript := getActiveScriptFile html htmlDir allFiles\<rparr>;
               doc1 = replaceFirst ''<head>'' (''<head>'' @ getConsoleOverrideScript) html
           in case rewriteSegs (rewriteLink folderFiles allFiles htmlDir)
                     (segments linkRegex doc1) (pv1, \<lparr>assetUrls = [], hasCss = False\<rparr>) of
                (Inl e, st) \<Rightarrow> (Inl e, fst st)
              | (Inr doc2, st) \<Rightarrow>
                  (case rewriteSegs (rewriteScript folderFiles allFiles htmlDir)
                          (segments scriptRegex doc2) st of
                     (Inl e, st') \<Rightarrow> (Inl e, fst st')
                   | (Inr doc3, st') \<Rightarrow>
                       (Inr (if hasCss (snd st') then doc3 else styleFallback allFiles doc3,
                             Some htmlEntry, assetUrls (snd st')),
                        fst st'))))\<close>

definition isReactProject :: "fmap \<Rightarrow> bool" where
  "isReactProject allFiles =
     (mapHas allFiles ''package.json'' \<and> mapHas allFiles ''src/main.jsx''
      \<and> mapHas allFiles ''src/index.html'')"

definition bundleTag :: "string \<Rightarrow> string" where
  \<open>bundleTag jsURL = ''<script type="module" src="'' @ jsURL @ ''"></script>''\<close>

text \<open>
  The frame is rendered only while \<open>isBundling\<close> is false; otherwise a progress
  indicator takes its place. The pass sets \<open>isBundling\<close> before the \<open>try\<close> block,
  so when it awaits the bundling service React renders the indicator: when the pass
  resumes, \<open>iframeRef.current\<close> is null and the frame with its document is gone.
\<close>

definition awaited :: "Preview \<Rightarrow> Preview" where
  "awaited pv = (if isBundling pv then pv\<lparr>iframe := False, srcdoc := []\<rparr> else pv)"

text \<open>
  \<open>assemble\<close> is the body of the \<open>try\<close> block after \<open>collectFiles\<close> and the
  clearing of \<open>assetUrlMapRef\<close>. The bundling service is the parameter \<open>build\<close>:
  given the files it returns the bundled text or throws; it is awaited. The path
  without bundling has no await.
\<close>

definition assemble ::
  "(fmap \<Rightarrow> thrown + string) \<Rightarrow> fmap \<Rightarrow> fmap \<Rightarrow> FileNode option \<Rightarrow> FileNode option
     \<Rightarrow> Preview \<Rightarrow> (thrown + assembled) \<times> Preview" where
  \<open>assemble build folderFiles allFiles lastHtml active pv =
     (if isReactProject allFiles then
        (case build allFiles of
           Inl e \<Rightarrow> (Inl e, awaited pv)
         | Inr text \<Rightarrow>
             (let (jsURL, pv1) =
                    createObjectURL \<lparr>blobText = text, blobType = ''application/javascript''\<rparr>
                      (awaited pv);
                  html = (case map_of allFiles ''src/index.html'' of
                            Some h \<Rightarrow> h
                          | None \<Rightarrow> ''<!DOCTYPE html><html><body><div id="root"></div></body></html>'');
                  stripped = outside (segments stripRegex html);
                  doc = replaceFirst ''</body>'' (bundleTag jsURL @ ''</body>'') stripped
              in (Inr (doc, Some ''src/index.html'', [(''src/main.jsx'', jsURL)]),
                  pv1\<lparr>assetUrlMap := mapSet ''src/main.jsx'' jsURL (assetUrlMap pv1),
                      activeScript := Some ''src/main.jsx''\<rparr>)))
      else
        (case selectEntry allFiles lastHtml active of
           Some htmlEntry \<Rightarrow>
             if htmlEntry = [] then (Inr (placeholderDoc, Some htmlEntry, []), pv\<lparr>activeScript := None\<rparr>)
             else assembleHtml folderFiles allFiles htmlEntry pv
         | None \<Rightarrow> (Inr (placeholderDoc, None, []), pv\<lparr>activeScript := None\<rparr>)))\<close>

text \<open>The two maps a pass collects from the editor state.\<close>

definition collected :: "State \<Rightarrow> fmap \<times> fmap" where
  "collected state = collectFiles (fileTree state) (activeFile state) (lastHtmlFile state)"

definition errorMessage :: "thrown \<Rightarrow> string" where
  "errorMessage e = (case e of ErrorObject m \<Rightarrow> m | OtherValue \<Rightarrow> ''Unknown error'')"

definition errorDoc :: "thrown \<Rightarrow> string" where
  \<open>errorDoc e = ''<p style="color:#fff;padding:1rem;">Build error: '' @ errorMessage e @ ''</p>''\<close>

text \<open>
  What the promise of a pass settles with: a thrown value would be a rejection; a
  fulfilled pass carries \<open>{ htmlUrl, assetUrls }\<close> for a new tab and nothing otherwise.
\<close>

type_synonym passResult = "thrown + (string \<times> fmap) option"

definition deliver :: "bool \<Rightarrow> string \<Rightarrow> fmap \<Rightarrow> Preview \<Rightarrow> passResult \<times> Preview" where
  "deliver forNewTab doc urls pv =
     (if forNewTab then
        (let (htmlUrl, pv') = createObjectURL \<lparr>blobText = doc, blobType = ''text/html''\<rparr> pv
         in (Inr (Some (htmlUrl, urls)), pv'))
      else if iframe pv then (Inr None, pv\<lparr>consoleMessages := [], srcdoc := doc\<rparr>)
      else (Inr None, pv))"

text \<open>
  \<open>settle\<close> is the rest of the pass once the document is assembled or a value was
  thrown: the assignment of \<open>lastRenderedHtmlRef\<close> and the delivery of the document,
  or the \<open>catch\<close> block for the thrown value, and then the \<open>finally\<close> block.
  Resetting \<open>isBundling\<close> lets React render the frame again; \<open>mounted\<close> says
  whether the frame was rendered when the pass started, and a frame that the progress
  indicator had replaced comes back new, with no document.
\<close>

definition settle ::
  "bool \<Rightarrow> bool \<Rightarrow> (thrown + assembled) \<times> Preview \<Rightarrow> passResult \<times> Preview" where
  "settle forNewTab mounted tried =
     (case tried of
        (outcome, pv1) \<Rightarrow>
          (case (case outcome of
                   Inr (doc, htmlEntry, urls) \<Rightarrow>
                     deliver forNewTab doc urls
                       (pv1\<lparr>lastRenderedHtml := (if truthy htmlEntry then htmlEntry else None)\<rparr>)
                 | Inl e \<Rightarrow> deliver forNewTab (errorDoc e) [] pv1) of
             (result, pv2) \<Rightarrow> (result, pv2\<lparr>isBundling := False, iframe := mounted\<rparr>)))"

definition bundleAndPreview ::
  "(fmap \<Rightarrow> thrown + string) \<Rightarrow> State \<Rightarrow> bool \<Rightarrow> Preview \<Rightarrow> passResult \<times> Preview" where
  "bundleAndPreview build state forNewTab pv =
     (if \<not> iframe pv \<and> \<not> forNewTab then (Inr None, pv)
      else
        settle forNewTab (iframe pv)
          (assemble build (fst (collected state)) (snd (collected state))
             (lastHtmlFile state) (activeFile state)
             (pv\<lparr>isBundling := True, assetUrlMap := []\<rparr>)))"

text \<open>
  Consecutive passes on the live preview, one per editor state of the list (the state may
  change between passes).
\<close>

fun passes :: "(fmap \<Rightarrow> thrown + string) \<Rightarrow> State list \<Rightarrow> Preview \<Rightarrow> Preview" where
  "passes build [] pv = pv"
| "passes build (state # states) pv =
     passes build states (snd (bundleAndPreview build state False pv))"

definition initialPreview :: Preview where
  "initialPreview =
     \<lparr>blobStore = [], assetUrlMap = [], activeScript = None, lastRenderedHtml = None,
      consoleMessages = [], isBundling = False, iframe = True, srcdoc = []\<rparr>"

section \<open>The message router: handleConsoleMessage\<close>

text \<open>
  An argument of a console call as it reaches the host. The handler asks for
  \<open>typeof arg === 'object'\<close>, calls \<open>JSON.stringify\<close> on objects (and \<open>null\<close>) and
  leaves the rest to \<open>join\<close>. \<open>Undefined\<close> joins as the empty string;
  \<open>Primitive t\<close> is any other non-object value, \<open>t\<close> its string conversion;
  \<open>Object j\<close> is a value of type object, \<open>j\<close> the text \<open>JSON.stringify\<close> returns
  for it, or \<open>None\<close> when \<open>JSON.stringify\<close> throws (a cyclic structure, a BigInt inside).
\<close>

datatype JsArg = Undefined | Primitive string | Object "string option"

datatype Posted =
    Console string "JsArg list" int
  | ErrorEvent string string int
  | Debug string
  | Test
  | OtherMessage

fun joinWith :: "string \<Rightarrow> string list \<Rightarrow> string" where
  "joinWith sep [] = []"
| "joinWith sep [x] = x"
| "joinWith sep (x # y # r) = x @ sep @ joinWith sep (y # r)"

text \<open>\<open>args.map(...)\<close>: the texts to join, or the \<open>TypeError\<close> of the first object that cannot be serialised.\<close>

definition typeErrorStringify :: thrown where
  "typeErrorStringify = ErrorObject ''Converting circular structure to JSON''"

fun stringifyArgs :: "JsArg list \<Rightarrow> thrown + string list" where
  "stringifyArgs [] = Inr []"
| "stringifyArgs (a # r) =
     (case (case a of
              Undefined \<Rightarrow> Inr []
            | Primitive t \<Rightarrow> Inr t
            | Object None \<Rightarrow> Inl typeErrorStringify
            | Object (Some j) \<Rightarrow> Inr j) of
        Inl e \<Rightarrow> Inl e
      | Inr t \<Rightarrow> (case stringifyArgs r of Inl e \<Rightarrow> Inl e | Inr ts \<Rightarrow> Inr (t # ts)))"

definition attributedFile :: "Preview \<Rightarrow> string" where
  "attributedFile pv =
     (case activeScript pv of
        None \<Rightarrow> ''unknown''
      | Some p \<Rightarrow>
          if p = [] then ''unknown''
          else if afterLastSlash p = [] then ''unknown'' else afterLastSlash p)"

fun handleConsoleMessage :: "Posted \<Rightarrow> Preview \<Rightarrow> thrown + Preview" where
  "handleConsoleMessage (Console method args ln) pv =
     (case stringifyArgs args of
        Inl e \<Rightarrow> Inl e
      | Inr texts \<Rightarrow>
          Inr (pv\<lparr>consoleMessages := consoleMessages pv @
                 [\<lparr>type_msg = method, message = joinWith '' '' texts,
                   file_msg = attributedFile pv, line = ln\<rparr>]\<rparr>))"
| "handleConsoleMessage (ErrorEvent msg stack ln) pv =
     Inr (pv\<lparr>consoleMessages := consoleMessages pv @
            [\<lparr>type_msg = ''error'',
              message = ''Error: '' @ msg @ (if stack \<noteq> [] then [CHR 0x0A] @ stack else []),
              file_msg = attributedFile pv, line = ln\<rparr>]\<rparr>)"
| "handleConsoleMessage (Debug msg) pv = Inr pv"
| "handleConsoleMessage Test pv = Inr pv"
| "handleConsoleMessage OtherMessage pv = Inr pv"

section \<open>The statements of the specification\<close>

text \<open>
  Entry selection as the specification words it: \<open>lastHtmlFile\<close> if set and its path is
  a key of \<open>allFiles\<close>; else \<open>activeFile\<close> if its name ends in \<open>.html\<close> and its
  path is a key; else the first key ending in \<open>.html\<close>; else none.
\<close>

definition isKey :: "fmap \<Rightarrow> string \<Rightarrow> bool" where
  "isKey m k = (k \<in> set (map fst m))"

definition entryBySpec :: "fmap \<Rightarrow> FileNode option \<Rightarrow> FileNode option \<Rightarrow> string option" where
  "entryBySpec allFiles lastHtml active =
     (case (case lastHtml of
              Some l \<Rightarrow> if isKey allFiles (fullPath l) then Some (fullPath l) else None
            | None \<Rightarrow> None) of
        Some e \<Rightarrow> Some e
      | None \<Rightarrow>
          (case (case active of
                   Some a \<Rightarrow>
                     if endsWith (name a) ''.html'' \<and> isKey allFiles (fullPath a)
                     then Some (fullPath a) else None
                 | None \<Rightarrow> None) of
             Some e \<Rightarrow> Some e
           | None \<Rightarrow> List.find (\<lambda>k. endsWith k ''.html'') (map fst allFiles)))"

text \<open>
  The text of a console argument as the specification words it: primitives as they are,
  anything else stringified. \<open>serialisable\<close> says that \<open>JSON.stringify\<close> returns.
\<close>

definition serialisable :: "JsArg \<Rightarrow> bool" where
  "serialisable a = (a \<noteq> Object None)"

definition argText :: "JsArg \<Rightarrow> string" where
  "argText a =
     (case a of
        Undefined \<Rightarrow> []
      | Primitive t \<Rightarrow> t
      | Object j \<Rightarrow> (case j of Some t \<Rightarrow> t | None \<Rightarrow> []))"

text \<open>The text of a segment, and the text a stripped document keeps of it.\<close>

fun segText :: "seg \<Rightarrow> string" where
  "segText (Chr c) = [c]"
| "segText (Hit m g) = m"

text \<open>
  \<open>keptPiece missing sg p\<close>: the piece \<open>p\<close> of the output stands for the segment
  \<open>sg\<close> of the input; a character outside the matches is itself, and a tag whose
  reference is missing is the tag itself.
\<close>

definition keptPiece :: "(string \<Rightarrow> bool) \<Rightarrow> seg \<Rightarrow> string \<Rightarrow> bool" where
  "keptPiece missing sg p = (case sg of Chr c \<Rightarrow> p = [c] | Hit m g \<Rightarrow> missing g \<longrightarrow> p = m)"

fun isHit :: "seg \<Rightarrow> bool" where
  "isHit (Chr c) = False"
| "isHit (Hit m g) = True"

fun group1 :: "seg \<Rightarrow> string" where
  "group1 (Chr c) = []"
| "group1 (Hit m g) = g"

text \<open>Concrete sessions and file maps used as examples.\<close>

definition failingBuild :: "fmap \<Rightarrow> thrown + string" where
  "failingBuild files = Inl (ErrorObject ''Could not resolve react'')"

definition okBuild :: "fmap \<Rightarrow> thrown + string" where
  "okBuild files = Inr ''bundle''"

text \<open>
  \<open>grows pv pv'\<close>: from \<open>pv\<close> to \<open>pv'\<close> object URLs were only added to the
  browser's store, every URL in \<open>assetUrlMapRef\<close> was there before or is a new one,
  and the console messages, \<open>lastRenderedHtmlRef\<close> and \<open>isBundling\<close> are untouched.
\<close>

definition grows :: "Preview \<Rightarrow> Preview \<Rightarrow> bool" where
  "grows pv pv' =
     ((\<exists>new. blobStore pv' = blobStore pv @ new
            \<and> snd ` set (assetUrlMap pv') \<subseteq> snd ` set (assetUrlMap pv) \<union> fst ` set new)
      \<and> consoleMessages pv' = consoleMessages pv
      \<and> lastRenderedHtml pv' = lastRenderedHtml pv \<and> isBundling pv' = isBundling pv)"

text \<open>A session whose HTML entry is a single stylesheet link next to the default files.\<close>

definition linkPage :: FileNode where
  \<open>linkPage =
     FileNode ''page-html'' ''page.html'' TFile
       (Some ''<link href="styles.css" rel="stylesheet">'') None ''development/page.html''\<close>

definition linkSession :: State where
  "linkSession =
     reducer (reducer initialState (ADD_NODE ''development-folder'' linkPage))
       (OPEN_FILE linkPage)"

text \<open>The default project with its HTML file deleted: a tree without any HTML file.\<close>

definition cssOnlySession :: State where
  "cssOnlySession = reducer initialState (DELETE_NODE ''index-html'')"

text \<open>
  File maps in which \<open>folderFiles\<close> and \<open>allFiles\<close> bind the same path to different
  content, and a page that refers to a script and to a stylesheet that does not exist.
\<close>

definition twoFolder :: fmap where
  "twoFolder = [(''development/styles.css'', ''body{color:red}''),
                (''development/app.js'', ''export const x=1;'')]"

definition twoAll :: fmap where
  \<open>twoAll = [(''development/index.html'',
               ''<link href="styles.css" rel="stylesheet"><link href="./missing.css" rel="stylesheet"><script src="app.js"></script>''),
              (''development/styles.css'', ''body{color:blue}''),
              (''development/app.js'', ''export const x=1;'')]\<close>

definition missingPage :: fmap where
  \<open>missingPage = [(''development/index.html'', ''<p><link href="./missing.css" rel="stylesheet"></p>'')]\<close>

text \<open>The same page added and opened in the editor, next to the default files.\<close>

definition missingLink :: FileNode where
  \<open>missingLink =
     FileNode ''page-html'' ''page.html'' TFile
       (Some ''<p><link href="./missing.css" rel="stylesheet"></p>'') None
       ''development/page.html''\<close>

definition missingSession :: State where
  "missingSession =
     foldl reducer initialState
       [ADD_NODE ''development-folder'' missingLink, OPEN_FILE missingLink]"

text \<open>
  A React-shaped project at the root of the working folder, built with the reducer: the
  default files are deleted, then \<open>package.json\<close> and the folder \<open>src\<close> with
  \<open>main.jsx\<close> and \<open>index.html\<close> are added.
\<close>

definition rootIndexHtml :: string where
  \<open>rootIndexHtml =
     ''<html><body><div id="root"></div><script type="module" src="/src/main.jsx"></script></body></html>''\<close>

definition rootReactSession :: State where
  "rootReactSession =
     foldl reducer initialState
       [DELETE_NODE ''index-html'',
        DELETE_NODE ''styles-css'',
        ADD_NODE ''development-folder''
          (FileNode ''pkg'' ''package.json'' TFile (Some ''{}'') None ''development/package.json''),
        ADD_NODE ''development-folder''
          (FileNode ''src-folder'' ''src'' TFolder None
             (Some [FileNode ''main'' ''main.jsx'' TFile (Some ''render()'') None
                      ''development/src/main.jsx'',
                    FileNode ''page'' ''index.html'' TFile (Some rootIndexHtml) None
                      ''development/src/index.html''])
             ''development/src'')]"

text \<open>
  Sessions for the module test: a page that loads \<open>app.js\<close>, added and opened next
  to the default files, where \<open>app.js\<close> has an import and an export statement
  written without a space after the keyword, or has neither statement.
\<close>

definition scriptPage :: FileNode where
  \<open>scriptPage =
     FileNode ''page-html'' ''page.html'' TFile
       (Some ''<script src="app.js"></script>'') None ''development/page.html''\<close>

definition scriptSession :: "string \<Rightarrow> State" where
  "scriptSession js =
     foldl reducer initialState
       [ADD_NODE ''development-folder''
          (FileNode ''app-js'' ''app.js'' TFile (Some js) None ''development/app.js''),
        ADD_NODE ''development-folder'' scriptPage,
        OPEN_FILE scriptPage]"

definition compactModule :: string where
  \<open>compactModule = ''import{x}from"./a.js";export{x};''\<close>

definition plainScript :: string where
  \<open>plainScript = ''var s = "we export nothing";''\<close>

text \<open>
  Sessions with a stylesheet link to a file that does not exist, the default stylesheet
  deleted: a page whose link carries the text \<open></head>\<close> in an attribute, and a page
  whose link sits inside an attribute of a script tag.
\<close>

definition headInTitle :: FileNode where
  \<open>headInTitle =
     FileNode ''page-html'' ''page.html'' TFile
       (Some ''<link href="./missing.css" rel="stylesheet" title="</head>">'') None
       ''development/page.html''\<close>

definition headInTitleSession :: State where
  "headInTitleSession =
     foldl reducer initialState
       [DELETE_NODE ''styles-css'',
        ADD_NODE ''development-folder'' headInTitle,
        OPEN_FILE headInTitle]"

definition linkInScript :: FileNode where
  \<open>linkInScript =
     FileNode ''page-html'' ''page.html'' TFile
       (Some ''<script src="app.js" x='<link href="./missing.css" rel="stylesheet">'></script>'')
       None ''development/page.html''\<close>

definition linkInScriptSession :: State where
  "linkInScriptSession =
     foldl reducer initialState
       [DELETE_NODE ''styles-css'',
        ADD_NODE ''development-folder''
          (FileNode ''app-js'' ''app.js'' TFile (Some ''var a = 1;'') None ''development/app.js''),
        ADD_NODE ''development-folder'' linkInScript,
        OPEN_FILE linkInScript]"

text \<open>
  \<open>storedPaths\<close> lists the \<open>fullPath\<close> of every node of a tree. \<open>rooted\<close> is what
  \<open>assignFullPaths\<close> and the renaming of a node make of a path: it starts with
  \<open>development\<close>, or with a slash.
\<close>

fun storedPaths :: "FileNode \<Rightarrow> string list" where
  "storedPaths (FileNode i nm ty co ch fp) =
     fp # (case ch of None \<Rightarrow> [] | Some cs \<Rightarrow> concat (map storedPaths cs))"

definition rooted :: "string \<Rightarrow> bool" where
  "rooted p = (startsWith p ''development'' \<or> startsWith p ''/'')"

section \<open>Editing and saving\<close>

lemma storedContents_assignFullPaths:
  "storedContents (assignFullPaths n b) = storedContents n"
proof (induction n arbitrary: b)
  case (FileNode i nm ty co ch fp)
  show ?case
  proof (cases ch)
    case None
    then show ?thesis by (simp add: Let_def)
  next
    case (Some cs)
    have h: "map (\<lambda>c. storedContents (assignFullPaths c b')) cs = map storedContents cs" for b'
      using FileNode Some by (intro map_cong) auto
    show ?thesis using Some by (simp add: Let_def comp_def h)
  qed
qed

lemma update_cases:
  assumes "update a (FileNode i nm ty co ch fp) = Some n'"
  shows "(\<exists>p m. a = ADD_NODE p m \<and>
            n' = FileNode i nm ty co
                   (Some ((case ch of None \<Rightarrow> [] | Some cs \<Rightarrow> cs) @ [assignFullPaths m fp])) fp)
       \<or> (\<exists>k nn. a = RENAME_NODE k nn \<and>
            n' = FileNode i nn ty co ch (beforeLastSlash fp @ ''/'' @ nn))
       \<or> (\<exists>cs. ch = Some cs \<and> n' = FileNode i nm ty co (Some (survivors a cs)) fp)
       \<or> (ch = None \<and> n' = FileNode i nm ty co ch fp)"
  using assms unfolding survivors_def
  by (cases a; cases ch) (simp_all split: if_splits)

lemma update_storedContents:
  "update a n = Some n' \<Longrightarrow> set (storedContents n') \<subseteq> set (storedContents n) \<union> added a"
proof (induction n arbitrary: n')
  case (FileNode i nm ty co ch fp)
  have IH: "\<And>cs c m. ch = Some cs \<Longrightarrow> c \<in> set cs \<Longrightarrow> update a c = Some m
              \<Longrightarrow> set (storedContents m) \<subseteq> set (storedContents c) \<union> added a"
    using FileNode.IH by auto
  have kids: "set (concat (map storedContents (survivors a cs)))
                \<subseteq> set (concat (map storedContents cs)) \<union> added a" if "ch = Some cs" for cs
  proof
    fix x assume "x \<in> set (concat (map storedContents (survivors a cs)))"
    then obtain c m where c: "c \<in> set cs" "update a c = Some m" "x \<in> set (storedContents m)"
      unfolding survivors_def by auto
    with IH[OF that c(1) c(2)] show "x \<in> set (concat (map storedContents cs)) \<union> added a"
      by auto
  qed
  from update_cases[OF FileNode.prems] show ?case
  proof (elim disjE exE conjE)
    fix p m assume "a = ADD_NODE p m" and
      "n' = FileNode i nm ty co
              (Some ((case ch of None \<Rightarrow> [] | Some cs \<Rightarrow> cs) @ [assignFullPaths m fp])) fp"
    then show ?thesis by (cases ch) (auto simp: added_def storedContents_assignFullPaths)
  next
    fix k nn assume "a = RENAME_NODE k nn"
      and "n' = FileNode i nn ty co ch (beforeLastSlash fp @ ''/'' @ nn)"
    then show ?thesis by auto
  next
    fix cs assume "ch = Some cs" and "n' = FileNode i nm ty co (Some (survivors a cs)) fp"
    then show ?thesis using kids[of cs] by auto
  next
    assume "ch = None" and "n' = FileNode i nm ty co ch fp"
    then show ?thesis by auto
  qed
qed

lemma treeEdit_storedContents:
  "set (storedContents (fileTree (treeEdit s a))) \<subseteq> set (storedContents (fileTree s)) \<union> added a"
proof (cases "update a (fileTree s)")
  case None
  then show ?thesis by (auto simp: treeEdit_def Let_def)
next
  case (Some t)
  from update_storedContents[OF Some] Some show ?thesis
    by (simp add: treeEdit_def Let_def)
qed

lemma reducer_storedContents:
  assumes "\<And>k. a = SAVE_FILE k \<Longrightarrow> \<not> hasId (activeFile s) k"
  shows "set (storedContents (fileTree (reducer s a)))
           \<subseteq> set (storedContents (fileTree s)) \<union> added a"
proof (cases a)
  case (UPDATE_CONTENT c)
  then show ?thesis by (auto split: option.splits)
next
  case (SAVE_FILE k)
  with assms show ?thesis by simp
qed (insert treeEdit_storedContents[of s a], auto simp: Let_def)

lemma update_content_fields:
  "reducer s (UPDATE_CONTENT c) =
     s\<lparr>fileContent := fileContent (reducer s (UPDATE_CONTENT c)),
       activeFile := activeFile (reducer s (UPDATE_CONTENT c)),
       selectedFile := selectedFile (reducer s (UPDATE_CONTENT c)),
       openFiles := openFiles (reducer s (UPDATE_CONTENT c))\<rparr>"
  by (cases "activeFile s") simp_all

lemma update_content_openFiles:
  "map node (openFiles (reducer s (UPDATE_CONTENT c))) = map node (openFiles s)"
  by (cases "activeFile s") (simp_all add: comp_def)

lemma update_content_dirty:
  assumes "activeFile s = Some af"
  shows "map dirty (openFiles (reducer s (UPDATE_CONTENT c))) =
         map (\<lambda>f. dirty f \<or> id_node (node f) = id_node af) (openFiles s)"
  using assms by (auto simp: comp_def)

text \<open>
  C10. Dispatching \<open>UPDATE_CONTENT\<close> leaves the file tree unchanged: only
  \<open>fileContent\<close>, the \<open>activeFile\<close> and \<open>selectedFile\<close> copies and the open files
  can differ, the open files keep their nodes, and the only dirty flag that is raised is
  the one of the open file with the active file's id. The content stored in the tree is
  written by \<open>SAVE_FILE\<close> for the active file only: that action stores the edited text
  in the node with that id, \<open>SAVE_FILE\<close> for another id changes nothing, and under any
  other action every (id, content) pair stored in the resulting tree was stored before
  or is part of the node that \<open>ADD_NODE\<close> inserts.
\<close>

theorem update_content_leaves_tree:
  "fileTree (reducer s (UPDATE_CONTENT c)) = fileTree s
   \<and> reducer s (UPDATE_CONTENT c) =
       s\<lparr>fileContent := fileContent (reducer s (UPDATE_CONTENT c)),
         activeFile := activeFile (reducer s (UPDATE_CONTENT c)),
         selectedFile := selectedFile (reducer s (UPDATE_CONTENT c)),
         openFiles := openFiles (reducer s (UPDATE_CONTENT c))\<rparr>
   \<and> map node (openFiles (reducer s (UPDATE_CONTENT c))) = map node (openFiles s)
   \<and> (\<forall>af. activeFile s = Some af \<longrightarrow>
         map dirty (openFiles (reducer s (UPDATE_CONTENT c))) =
           map (\<lambda>f. dirty f \<or> id_node (node f) = id_node af) (openFiles s)
         \<and> fileTree (reducer (reducer s (UPDATE_CONTENT c)) (SAVE_FILE (id_node af))) =
             updateNodeContent (fileTree s) (id_node af) c)
   \<and> (\<forall>k. \<not> hasId (activeFile s) k \<longrightarrow> reducer s (SAVE_FILE k) = s)
   \<and> (\<forall>a. (\<forall>k. a = SAVE_FILE k \<longrightarrow> \<not> hasId (activeFile s) k) \<longrightarrow>
         set (storedContents (fileTree (reducer s a)))
           \<subseteq> set (storedContents (fileTree s)) \<union> added a)"
proof (intro conjI allI impI)
  show "fileTree (reducer s (UPDATE_CONTENT c)) = fileTree s"
    by (cases "activeFile s") simp_all
  show "reducer s (UPDATE_CONTENT c) =
       s\<lparr>fileContent := fileContent (reducer s (UPDATE_CONTENT c)),
         activeFile := activeFile (reducer s (UPDATE_CONTENT c)),
         selectedFile := selectedFile (reducer s (UPDATE_CONTENT c)),
         openFiles := openFiles (reducer s (UPDATE_CONTENT c))\<rparr>"
    by (rule update_content_fields)
  show "map node (openFiles (reducer s (UPDATE_CONTENT c))) = map node (openFiles s)"
    by (rule update_content_openFiles)
next
  fix af assume "activeFile s = Some af"
  then show "map dirty (openFiles (reducer s (UPDATE_CONTENT c))) =
           map (\<lambda>f. dirty f \<or> id_node (node f) = id_node af) (openFiles s)"
    by (rule update_content_dirty)
next
  fix af assume "activeFile s = Some af"
  then show "fileTree (reducer (reducer s (UPDATE_CONTENT c)) (SAVE_FILE (id_node af))) =
             updateNodeContent (fileTree s) (id_node af) c"
    by (simp add: hasId_def withContent_def Let_def)
next
  fix k assume "\<not> hasId (activeFile s) k"
  then show "reducer s (SAVE_FILE k) = s" by simp
next
  fix a assume "\<forall>k. a = SAVE_FILE k \<longrightarrow> \<not> hasId (activeFile s) k"
  then show "set (storedContents (fileTree (reducer s a)))
           \<subseteq> set (storedContents (fileTree s)) \<union> added a"
    by (intro reducer_storedContents) simp
qed

theorem update_content_leaves_tree_witness:
  "activeFile siteSession = Some siteIndex
   \<and> fileTree (reducer siteSession (UPDATE_CONTENT ''<p>hi</p>'')) = fileTree siteSession
   \<and> map dirty (openFiles (reducer siteSession (UPDATE_CONTENT ''<p>hi</p>''))) = [True]
   \<and> fileTree (reducer (reducer siteSession (UPDATE_CONTENT ''<p>hi</p>''))
          (SAVE_FILE ''site-index''))
       = updateNodeContent (fileTree siteSession) ''site-index'' ''<p>hi</p>''
   \<and> reducer siteSession (SAVE_FILE ''styles-css'') = siteSession
   \<and> set (storedContents (fileTree (reducer siteSession (DELETE_NODE ''styles-css''))))
        \<subseteq> set (storedContents (fileTree siteSession))"
proof -
  note t = update_content_leaves_tree [of siteSession "''<p>hi</p>''"]
  have a: "activeFile siteSession = Some siteIndex" by code_simp
  have i: "id_node siteIndex = ''site-index''" by (simp add: siteIndex_def)
  have o: "map (\<lambda>f. dirty f \<or> id_node (node f) = id_node siteIndex) (openFiles siteSession) = [True]"
    by code_simp
  have h: "\<not> hasId (activeFile siteSession) ''styles-css''" by code_simp
  from t have "fileTree (reducer siteSession (UPDATE_CONTENT ''<p>hi</p>'')) = fileTree siteSession"
    by (rule conjunct1)
  moreover from t a have "map dirty (openFiles (reducer siteSession (UPDATE_CONTENT ''<p>hi</p>''))) =
           map (\<lambda>f. dirty f \<or> id_node (node f) = id_node siteIndex) (openFiles siteSession)"
    by blast
  moreover from t a have "fileTree (reducer (reducer siteSession (UPDATE_CONTENT ''<p>hi</p>''))
          (SAVE_FILE (id_node siteIndex)))
       = updateNodeContent (fileTree siteSession) (id_node siteIndex) ''<p>hi</p>''"
    by blast
  moreover from t h have "reducer siteSession (SAVE_FILE ''styles-css'') = siteSession"
    by blast
  moreover from t have "set (storedContents (fileTree (reducer siteSession (DELETE_NODE ''styles-css''))))
        \<subseteq> set (storedContents (fileTree siteSession)) \<union> added (DELETE_NODE ''styles-css'')"
    by blast
  then have "set (storedContents (fileTree (reducer siteSession (DELETE_NODE ''styles-css''))))
        \<subseteq> set (storedContents (fileTree siteSession))"
    by (simp add: added_def)
  ultimately show ?thesis using a o by (simp only: i simp_thms)
qed

section \<open>Deleting nodes\<close>

text \<open>
  C2. When the delete destroys the file that \<open>lastHtmlFile\<close> refers to,
  \<open>lastHtmlFile\<close> is to be cleared, also when the delete targets an ancestor folder.
  The reducer compares the deleted id with the id of \<open>lastHtmlFile\<close> only. In the
  session below \<open>lastHtmlFile\<close> is \<open>development/site/index.html\<close>; deleting the
  folder \<open>site\<close> removes that file from the tree and from the open files (which are
  synchronised with the new tree), and \<open>lastHtmlFile\<close> still refers to it.
\<close>

theorem delete_ancestor_keeps_lastHtmlFile:
  "lastHtmlFile siteSession = Some siteIndex
   \<and> findNodeById (fileTree siteSession) ''site-index'' = Some siteIndex
   \<and> findNodeById (fileTree (reducer siteSession (DELETE_NODE ''site-folder''))) ''site-index'' = None
   \<and> openFiles (reducer siteSession (DELETE_NODE ''site-folder'')) = []
   \<and> lastHtmlFile (reducer siteSession (DELETE_NODE ''site-folder'')) = Some siteIndex"
  by code_simp

section \<open>The message router\<close>

lemma stringifyArgs_ok:
  "list_all serialisable args \<Longrightarrow> stringifyArgs args = Inr (map argText args)"
  by (induction args) (auto simp: serialisable_def argText_def split: JsArg.splits option.splits)

lemma stringifyArgs_fail:
  "\<not> list_all serialisable args \<Longrightarrow> stringifyArgs args = Inl typeErrorStringify"
  by (induction args) (auto simp: serialisable_def split: JsArg.splits option.splits sum.splits)

text \<open>
  C9, as the code has it. When \<open>JSON.stringify\<close> returns for every object argument, a
  posted console message appends exactly one console message: its kind is the posted
  method, its text the arguments joined with single spaces (objects and \<open>null\<close> as
  their JSON text, \<open>undefined\<close> as the empty string), its line the posted line, its
  file the text after the last slash of the tracked active script, or \<open>unknown\<close> when
  no script is tracked or that text is empty. Nothing else of the component changes.
\<close>

theorem console_message_appended:
  "list_all serialisable args \<longrightarrow>
      handleConsoleMessage (Console method args ln) pv =
        Inr (pv\<lparr>consoleMessages := consoleMessages pv @
               [\<lparr>type_msg = method,
                 message = joinWith '' '' (map argText args),
                 file_msg = (case activeScript pv of
                               None \<Rightarrow> ''unknown''
                             | Some p \<Rightarrow> if afterLastSlash p = [] then ''unknown''
                                         else afterLastSlash p),
                 line = ln\<rparr>]\<rparr>)"
  by (auto simp: stringifyArgs_ok attributedFile_def afterLastSlash_def split: option.splits)

text \<open>
  The example of the specification: method \<open>warn\<close>, arguments \<open>['hi']\<close>, line 3,
  active script \<open>development/app.js\<close>.
\<close>

theorem console_message_appended_witness:
  "list_all serialisable [Primitive ''hi'']
   \<and> handleConsoleMessage (Console ''warn'' [Primitive ''hi''] 3)
        (initialPreview\<lparr>activeScript := Some ''development/app.js''\<rparr>)
      = Inr (initialPreview\<lparr>activeScript := Some ''development/app.js'',
               consoleMessages :=
                 [\<lparr>type_msg = ''warn'', message = ''hi'', file_msg = ''app.js'', line = 3\<rparr>]\<rparr>)"
proof -
  have s: "list_all serialisable [Primitive ''hi'']" by (simp add: serialisable_def)
  from console_message_appended
         [of "[Primitive ''hi'']" "''warn''" 3
             "initialPreview\<lparr>activeScript := Some ''development/app.js''\<rparr>"] s
  show ?thesis
    by (simp add: argText_def afterLastSlash_def initialPreview_def)
qed

text \<open>
  C9 as stated fails. The preview frame posts \<open>console.log(a)\<close> for an object \<open>a\<close> that
  refers to itself (the structured clone keeps the cycle): \<open>JSON.stringify\<close> throws in
  the handler and no console message is appended. And when the tracked active script ends
  in a slash, the attributed file is \<open>unknown\<close> although a script is tracked.
\<close>

theorem console_message_unserialisable:
  "handleConsoleMessage (Console ''log'' [Object None] 1) initialPreview = Inl typeErrorStringify
   \<and> handleConsoleMessage (Console ''log'' [Primitive ''x''] 1)
         (initialPreview\<lparr>activeScript := Some ''development/lib/''\<rparr>)
       = Inr (initialPreview\<lparr>activeScript := Some ''development/lib/'',
                consoleMessages :=
                  [\<lparr>type_msg = ''log'', message = ''x'', file_msg = ''unknown'', line = 1\<rparr>]\<rparr>)"
  by code_simp

section \<open>What a pass does to the component\<close>

lemma grows_refl: "grows pv pv"
  by (simp add: grows_def)

lemma grows_trans:
  assumes "grows a b" "grows b c" shows "grows a c"
proof -
  from assms(1) obtain n1 where 1: "blobStore b = blobStore a @ n1"
    "snd ` set (assetUrlMap b) \<subseteq> snd ` set (assetUrlMap a) \<union> fst ` set n1"
    unfolding grows_def by blast
  from assms(2) obtain n2 where 2: "blobStore c = blobStore b @ n2"
    "snd ` set (assetUrlMap c) \<subseteq> snd ` set (assetUrlMap b) \<union> fst ` set n2"
    unfolding grows_def by blast
  have "blobStore c = blobStore a @ (n1 @ n2)" using 1 2 by simp
  moreover have "snd ` set (assetUrlMap c) \<subseteq> snd ` set (assetUrlMap a) \<union> fst ` set (n1 @ n2)"
  proof
    fix x assume "x \<in> snd ` set (assetUrlMap c)"
    with 2(2) have "x \<in> snd ` set (assetUrlMap b) \<or> x \<in> fst ` set n2" by (meson UnE subsetD)
    moreover have "x \<in> snd ` set (assetUrlMap b) \<Longrightarrow> x \<in> snd ` set (assetUrlMap a) \<or> x \<in> fst ` set n1"
      using 1(2) by (meson UnE subsetD)
    ultimately show "x \<in> snd ` set (assetUrlMap a) \<union> fst ` set (n1 @ n2)"
      by (auto simp only: set_append image_Un Un_iff)
  qed
  ultimately have "\<exists>new. blobStore c = blobStore a @ new
            \<and> snd ` set (assetUrlMap c) \<subseteq> snd ` set (assetUrlMap a) \<union> fst ` set new"
    by blast
  with assms show ?thesis unfolding grows_def by simp
qed

lemma grows_awaited: "grows pv (awaited pv)"
  by (simp add: grows_def awaited_def)

lemma grows_activeScript: "grows pv (pv\<lparr>activeScript := x\<rparr>)"
  by (simp add: grows_def)

lemma mapSet_value: "(a, x) \<in> set (mapSet k v m) \<Longrightarrow> x = v \<or> (\<exists>a'. (a', x) \<in> set m)"
  by (induction m) (auto split: if_splits)

lemma mapSet_values: "snd ` set (mapSet k v m) \<subseteq> insert v (snd ` set m)"
proof
  fix x assume "x \<in> snd ` set (mapSet k v m)"
  then obtain a where "(a, x) \<in> set (mapSet k v m)" by auto
  from mapSet_value[OF this] show "x \<in> insert v (snd ` set m)" by force
qed

lemma grows_create:
  assumes "createObjectURL b pv = (url, pv1)"
  shows "grows pv (pv1\<lparr>assetUrlMap := mapSet k url (assetUrlMap pv1)\<rparr>)"
proof -
  from assms have s: "blobStore pv1 = blobStore pv @ [(url, b)]" and m: "assetUrlMap pv1 = assetUrlMap pv"
    and r: "consoleMessages pv1 = consoleMessages pv"
       "lastRenderedHtml pv1 = lastRenderedHtml pv" "isBundling pv1 = isBundling pv"
    by (auto simp: createObjectURL_def Let_def)
  have "snd ` set (mapSet k url (assetUrlMap pv)) \<subseteq> snd ` set (assetUrlMap pv) \<union> fst ` set [(url, b)]"
    using mapSet_values[of k url "assetUrlMap pv"] by auto
  with s m r show ?thesis unfolding grows_def by auto
qed

lemma grows_create_only:
  assumes "createObjectURL b pv = (url, pv1)"
  shows "grows pv pv1"
  using assms by (auto simp: createObjectURL_def Let_def grows_def)

lemma recordAsset_fst:
  "fst (recordAsset path url (pv, l)) = pv\<lparr>assetUrlMap := mapSet path url (assetUrlMap pv)\<rparr>"
  by (simp add: recordAsset_def)

lemma rewriteLink_grows:
  assumes "rewriteLink ff af dir m g st = (r, st')" shows "grows (fst st) (fst st')"
proof (cases "lookupAsset ff af dir g")
  case None
  with assms show ?thesis by (simp add: rewriteLink_def grows_refl)
next
  case (Some pc)
  obtain path c where pc: "pc = (path, c)" by (cases pc)
  obtain url pv1 where u: "createObjectURL \<lparr>blobText = blobPart c, blobType = ''text/css''\<rparr> (fst st) = (url, pv1)"
    by (cases "createObjectURL \<lparr>blobText = blobPart c, blobType = ''text/css''\<rparr> (fst st)")
  from assms Some pc u have "st' = recordAsset path url (pv1, snd st\<lparr>hasCss := True\<rparr>)"
    by (simp add: rewriteLink_def)
  then show ?thesis using grows_create[OF u] by (simp add: recordAsset_fst)
qed

lemma rewriteScript_grows:
  assumes "rewriteScript ff af dir m g st = (r, st')" shows "grows (fst st) (fst st')"
proof (cases "lookupAsset ff af dir g")
  case None
  with assms show ?thesis by (simp add: rewriteScript_def grows_refl)
next
  case (Some pc)
  obtain path c where pc: "pc = (path, c)" by (cases pc)
  obtain url pv1 where u: "createObjectURL \<lparr>blobText = blobPart c, blobType = ''application/javascript''\<rparr> (fst st) = (url, pv1)"
    by (cases "createObjectURL \<lparr>blobText = blobPart c, blobType = ''application/javascript''\<rparr> (fst st)")
  from assms Some pc u have "st' = recordAsset path url (pv1, snd st)"
    by (cases c) (simp_all add: rewriteScript_def Let_def)
  then show ?thesis using grows_create[OF u] by (simp add: recordAsset_fst)
qed

lemma rewriteSegs_grows:
  assumes f: "\<And>m g st r st'. f m g st = (r, st') \<Longrightarrow> grows (fst st) (fst st')"
  shows "rewriteSegs f segs st = (r, st') \<Longrightarrow> grows (fst st) (fst st')"
proof (induction segs arbitrary: st r st')
  case Nil
  then show ?case by (simp add: grows_refl)
next
  case (Cons s segs)
  show ?case
  proof (cases s)
    case (Chr c)
    with Cons.prems obtain r0 where "rewriteSegs f segs st = (r0, st')"
      by (auto split: prod.splits sum.splits)
    then show ?thesis by (rule Cons.IH)
  next
    case (Hit m g)
    obtain r1 st1 where 1: "f m g st = (r1, st1)" by (cases "f m g st")
    show ?thesis
    proof (cases r1)
      case (Inl e)
      with 1 Hit Cons.prems have "st' = st1" by simp
      with f[OF 1] show ?thesis by simp
    next
      case (Inr rep)
      with 1 Hit Cons.prems obtain r2 where "rewriteSegs f segs st1 = (r2, st')"
        by (auto split: prod.splits sum.splits)
      from Cons.IH[OF this] f[OF 1] show ?thesis by (rule grows_trans[rotated])
    qed
  qed
qed

lemma assembleHtml_grows:
  assumes "assembleHtml ff af e pv = (r, pv')" shows "grows pv pv'"
proof (cases "map_of af e")
  case None
  with assms show ?thesis by (auto simp: assembleHtml_def grows_activeScript)
next
  case (Some html)
  define dir where "dir = beforeLastSlash e"
  define pv1 where "pv1 = pv\<lparr>activeScript := getActiveScriptFile html dir af\<rparr>"
  define doc1 where "doc1 = replaceFirst ''<head>'' (''<head>'' @ getConsoleOverrideScript) html"
  obtain r1 st1 where 1: "rewriteSegs (rewriteLink ff af dir) (segments linkRegex doc1)
                            (pv1, \<lparr>assetUrls = [], hasCss = False\<rparr>) = (r1, st1)"
    by (cases "rewriteSegs (rewriteLink ff af dir) (segments linkRegex doc1)
                            (pv1, \<lparr>assetUrls = [], hasCss = False\<rparr>)")
  have g0: "grows pv pv1" unfolding pv1_def by (rule grows_activeScript)
  have g1: "grows pv1 (fst st1)"
    using rewriteSegs_grows[OF rewriteLink_grows 1] by simp
  show ?thesis
  proof (cases r1)
    case (Inl err)
    with assms Some 1 have "pv' = fst st1"
      by (simp add: assembleHtml_def Let_def dir_def pv1_def doc1_def)
    with g0 g1 show ?thesis by (auto intro: grows_trans)
  next
    case (Inr doc2)
    obtain r2 st2 where 2: "rewriteSegs (rewriteScript ff af dir) (segments scriptRegex doc2) st1 = (r2, st2)"
      by (cases "rewriteSegs (rewriteScript ff af dir) (segments scriptRegex doc2) st1")
    have g2: "grows (fst st1) (fst st2)"
      using rewriteSegs_grows[OF rewriteScript_grows 2] by simp
    from assms Some 1 Inr 2 have "pv' = fst st2"
      by (auto simp: assembleHtml_def Let_def dir_def pv1_def doc1_def split: sum.splits)
    with g0 g1 g2 show ?thesis by (auto intro: grows_trans)
  qed
qed

lemma assemble_grows:
  assumes "assemble build ff af lh act pv = (r, pv')" shows "grows pv pv'"
proof (cases "isReactProject af")
  case True
  show ?thesis
  proof (cases "build af")
    case (Inl e)
    with True assms show ?thesis by (auto simp: assemble_def grows_awaited)
  next
    case (Inr js)
    obtain url pv1 where c: "createObjectURL \<lparr>blobText = js, blobType = ''application/javascript''\<rparr>
                               (awaited pv) = (url, pv1)"
      by (cases "createObjectURL \<lparr>blobText = js, blobType = ''application/javascript''\<rparr> (awaited pv)")
    with True Inr assms have "pv' = (pv1\<lparr>assetUrlMap := mapSet ''src/main.jsx'' url (assetUrlMap pv1)\<rparr>)\<lparr>activeScript := Some ''src/main.jsx''\<rparr>"
      by (simp add: assemble_def Let_def)
    with grows_create[OF c, of "''src/main.jsx''"]
    have "grows (awaited pv) pv'" by (auto intro: grows_trans grows_activeScript)
    with grows_awaited[of pv] show ?thesis by (rule grows_trans)
  qed
next
  case False
  show ?thesis
  proof (cases "selectEntry af lh act")
    case None
    with False assms show ?thesis by (auto simp: assemble_def grows_activeScript)
  next
    case (Some e)
    show ?thesis
    proof (cases "e = []")
      case True
      with False Some assms show ?thesis by (auto simp: assemble_def grows_activeScript)
    next
      case ne: False
      with False Some assms have "assembleHtml ff af e pv = (r, pv')" by (simp add: assemble_def)
      then show ?thesis by (rule assembleHtml_grows)
    qed
  qed
qed

lemma deliver_store:
  "\<exists>new. blobStore (snd (deliver forNewTab doc urls pv)) = blobStore pv @ new
         \<and> assetUrlMap (snd (deliver forNewTab doc urls pv)) = assetUrlMap pv"
  by (simp add: deliver_def createObjectURL_def Let_def)

lemma deliver_iframe: "iframe (snd (deliver forNewTab doc urls pv)) = iframe pv"
  by (simp add: deliver_def createObjectURL_def Let_def)

lemma pass_unfold:
  assumes "iframe pv \<or> forNewTab"
    and "assemble build (fst (collected state)) (snd (collected state))
           (lastHtmlFile state) (activeFile state) (pv\<lparr>isBundling := True, assetUrlMap := []\<rparr>)
         = (outcome, pv1)"
  shows "bundleAndPreview build state forNewTab pv =
           (case (case outcome of
                    Inr (doc, htmlEntry, urls) \<Rightarrow>
                      deliver forNewTab doc urls
                        (pv1\<lparr>lastRenderedHtml := (if truthy htmlEntry then htmlEntry else None)\<rparr>)
                  | Inl e \<Rightarrow> deliver forNewTab (errorDoc e) [] pv1) of
              (r, pv2) \<Rightarrow> (r, pv2\<lparr>isBundling := False, iframe := iframe pv\<rparr>))"
  using assms unfolding bundleAndPreview_def settle_def by auto

lemma pass_store:
  "\<exists>new. blobStore (snd (bundleAndPreview build state forNewTab pv)) = blobStore pv @ new
         \<and> (iframe pv \<or> forNewTab \<longrightarrow>
              snd ` set (assetUrlMap (snd (bundleAndPreview build state forNewTab pv))) \<subseteq> fst ` set new)"
proof (cases "iframe pv \<or> forNewTab")
  case False
  then show ?thesis by (simp add: bundleAndPreview_def)
next
  case True
  define pv0 where "pv0 = pv\<lparr>isBundling := True, assetUrlMap := []\<rparr>"
  obtain outcome pv1 where a: "assemble build (fst (collected state)) (snd (collected state))
           (lastHtmlFile state) (activeFile state) pv0 = (outcome, pv1)"
    by (cases "assemble build (fst (collected state)) (snd (collected state))
           (lastHtmlFile state) (activeFile state) pv0")
  from assemble_grows[OF a] obtain n1 where n1: "blobStore pv1 = blobStore pv @ n1"
    "snd ` set (assetUrlMap pv1) \<subseteq> fst ` set n1"
    unfolding grows_def pv0_def by auto
  define mid where "mid = (case outcome of
                    Inr (doc, htmlEntry, urls) \<Rightarrow>
                      deliver forNewTab doc urls
                        (pv1\<lparr>lastRenderedHtml := (if truthy htmlEntry then htmlEntry else None)\<rparr>)
                  | Inl e \<Rightarrow> deliver forNewTab (errorDoc e) [] pv1)"
  have "\<exists>n2. blobStore (snd mid) = blobStore pv1 @ n2 \<and> assetUrlMap (snd mid) = assetUrlMap pv1"
  proof (cases outcome)
    case (Inl e)
    then show ?thesis unfolding mid_def using deliver_store[of forNewTab "errorDoc e" "[]" pv1] by simp
  next
    case (Inr t)
    obtain doc htmlEntry urls where t: "t = (doc, htmlEntry, urls)" by (cases t)
    show ?thesis unfolding mid_def Inr t
      using deliver_store[of forNewTab doc urls
              "pv1\<lparr>lastRenderedHtml := (if truthy htmlEntry then htmlEntry else None)\<rparr>"]
      by simp
  qed
  then obtain n2 where n2: "blobStore (snd mid) = blobStore pv1 @ n2"
    "assetUrlMap (snd mid) = assetUrlMap pv1" by blast
  have r: "bundleAndPreview build state forNewTab pv
             = (fst mid, (snd mid)\<lparr>isBundling := False, iframe := iframe pv\<rparr>)"
    using pass_unfold[OF True a[unfolded pv0_def]] unfolding mid_def by (simp split: prod.splits)
  have "blobStore (snd (bundleAndPreview build state forNewTab pv)) = blobStore pv @ (n1 @ n2)"
    using r n1 n2 by simp
  moreover have "snd ` set (assetUrlMap (snd (bundleAndPreview build state forNewTab pv)))
                   \<subseteq> fst ` set (n1 @ n2)"
    using r n1 n2 by auto
  ultimately show ?thesis by blast
qed

lemma passes_store: "\<exists>new. blobStore (passes build states pv) = blobStore pv @ new"
proof (induction states arbitrary: pv)
  case Nil
  show ?case by simp
next
  case (Cons s states)
  from pass_store[of build s False pv] obtain n1 where
    "blobStore (snd (bundleAndPreview build s False pv)) = blobStore pv @ n1" by blast
  moreover from Cons[of "snd (bundleAndPreview build s False pv)"] obtain n2 where
    "blobStore (passes build states (snd (bundleAndPreview build s False pv)))
       = blobStore (snd (bundleAndPreview build s False pv)) @ n2" by blast
  ultimately show ?case by simp
qed

text \<open>
  C1, as the code has it. A pass clears \<open>assetUrlMapRef\<close> when it starts and never
  revokes an object URL. So after a pass that ran, every URL in the map was created by
  that pass (the map holds one generation), while every URL that was live before the pass
  is still live after it: the browser's store only grows, over one pass and over any
  number of consecutive passes.
\<close>

theorem handles_accumulate:
  "(\<exists>new. blobStore (snd (bundleAndPreview build state forNewTab pv)) = blobStore pv @ new
         \<and> (iframe pv \<or> forNewTab \<longrightarrow>
              snd ` set (assetUrlMap (snd (bundleAndPreview build state forNewTab pv))) \<subseteq> fst ` set new))
   \<and> (\<exists>new. blobStore (passes build states pv) = blobStore pv @ new)
   \<and> liveUrls pv \<subseteq> liveUrls (passes build states pv)"
proof -
  obtain new where "blobStore (passes build states pv) = blobStore pv @ new"
    using passes_store by blast
  then have "liveUrls pv \<subseteq> liveUrls (passes build states pv)"
    by (auto simp: liveUrls_def)
  with pass_store[of build state forNewTab pv] passes_store[of build states pv]
  show ?thesis by blast
qed

theorem handles_accumulate_witness:
  "iframe initialPreview
   \<and> (\<exists>new. blobStore (snd (bundleAndPreview okBuild linkSession False initialPreview))
              = blobStore initialPreview @ new
            \<and> snd ` set (assetUrlMap (snd (bundleAndPreview okBuild linkSession False initialPreview)))
                \<subseteq> fst ` set new)
   \<and> liveUrls initialPreview
        \<subseteq> liveUrls (passes okBuild [linkSession, linkSession] initialPreview)"
proof -
  have i: "iframe initialPreview" by (simp add: initialPreview_def)
  from handles_accumulate
         [of okBuild linkSession False initialPreview "[linkSession, linkSession]"] i
  show ?thesis by blast
qed

text \<open>
  C1 as stated fails. Two passes over a page with one stylesheet link: the URL
  \<open>blob:0\<close> that the first pass created is still in the browser's store when the
  second pass has completed and created \<open>blob:1\<close>; only the map forgot it.
\<close>

theorem handles_not_revoked:
  "map fst (blobStore (passes okBuild [linkSession] initialPreview)) = [''blob:0'']
   \<and> map fst (blobStore (passes okBuild [linkSession, linkSession] initialPreview))
        = [''blob:0'', ''blob:1'']
   \<and> assetUrlMap (passes okBuild [linkSession, linkSession] initialPreview)
        = [(''development/styles.css'', ''blob:1'')]"
  by code_simp

lemma startsWith_includesStr: "startsWith s p \<Longrightarrow> includesStr s p"
  by (cases s) (auto simp: startsWith_def)

lemma includesStr_append: "includesStr (a @ p @ b) p"
proof (induction a)
  case Nil
  have "startsWith (p @ b) p" by (simp add: startsWith_def)
  then show ?case by (simp add: startsWith_includesStr)
next
  case (Cons c a)
  then show ?case by simp
qed





lemma bundling_failure:
  "isReactProject af \<Longrightarrow> build af = Inl e \<Longrightarrow>
     assemble build ff af lh act pv = (Inl e, awaited pv)"
  by (simp add: assemble_def)




section \<open>Entry selection\<close>

lemma mapSet_keys_list:
  "map fst (mapSet k v m) = (if k \<in> set (map fst m) then map fst m else map fst m @ [k])"
  by (induction m) (simp_all, force)

lemma mapSet_keys: "fst ` set (mapSet k v m) = insert k (fst ` set m)"
proof -
  have "set (map fst (mapSet k v m)) = insert k (set (map fst m))"
    unfolding mapSet_keys_list by auto
  then show ?thesis by simp
qed

lemma pathOf_nonempty: "pathOf n base \<noteq> []"
  by (simp add: pathOf_def)

lemma traverse_keys:
  "[] \<notin> fst ` set (snd maps) \<Longrightarrow> [] \<notin> fst ` set (snd (traverse fp n base maps))"
  "[] \<notin> fst ` set (snd maps) \<Longrightarrow> [] \<notin> fst ` set (snd (traverseAll fp ns base maps))"
proof (induction fp n base maps and fp ns base maps rule: traverse_traverseAll.induct)
  case (1 folderPath i nm ty co ch fp base folderFiles allFiles)
  show ?case
  proof (cases "ty = TFile")
    case True
    with 1(2) pathOf_nonempty[of "FileNode i nm ty co ch fp" base] show ?thesis
      by (auto simp: Let_def mapSet_keys simp del: pathOf_def)
  next
    case False
    with 1 show ?thesis by (cases ch) (auto simp: Let_def)
  qed
next
  case (2 folderPath base maps)
  then show ?case by simp
next
  case (3 folderPath c cs base maps)
  then show ?case by simp
qed

lemma collectFiles_keys: "collectFiles tree act lh = (ff, af) \<Longrightarrow> [] \<notin> fst ` set af"
proof -
  assume c: "collectFiles tree act lh = (ff, af)"
  have "[] \<notin> fst ` set (snd (collectFiles tree act lh))"
    unfolding collectFiles_def
    by (auto split: option.splits simp: traverse_keys(2) simp del: traverseAll.simps)
  with c show ?thesis by simp
qed

lemma mapHas_isKey: "mapHas m k = isKey m k"
  by (simp add: mapHas_def isKey_def map_of_eq_None_iff)

lemma find_nonempty: "List.find (\<lambda>k. endsWith k ''.html'') ks = Some e \<Longrightarrow> e \<noteq> []"
  by (auto simp: find_Some_iff endsWith_def)

lemma selectEntry_spec:
  assumes "[] \<notin> fst ` set af"
  shows "selectEntry af lh act = entryBySpec af lh act"
proof -
  have k: "isKey af p \<Longrightarrow> p \<noteq> []" for p using assms by (cases "p = []") (simp_all add: isKey_def)
  have t: "truthy (Some p) = (p \<noteq> [])" for p by (cases p) (simp_all add: truthy_def)
  show ?thesis
    unfolding selectEntry_def entryBySpec_def Let_def mapHas_isKey isHtml_def
    by (cases lh; cases act) (auto simp: truthy_def dest: k split: list.splits)
qed

lemma entryBySpec_nonempty:
  assumes "[] \<notin> fst ` set af" "entryBySpec af lh act = Some e"
  shows "e \<noteq> []"
proof -
  have k: "isKey af p \<Longrightarrow> p \<noteq> []" for p using assms(1) by (cases "p = []") (simp_all add: isKey_def)
  from assms(2) show ?thesis
    unfolding entryBySpec_def
    by (auto split: option.splits if_splits dest: k find_nonempty)
qed


lemma placeholder_message: "includesStr placeholderDoc ''No HTML to preview''"
proof -
  have h: \<open>placeholderDoc =
          (''<!DOCTYPE html><html><head>'' @ getConsoleOverrideScript @ emptyStyle
             @ ''</head><body><p style="color:#fff;padding:1rem;">'')
          @ ''No HTML to preview'' @ ''.</p></body></html>''\<close>
    by (simp add: placeholderDoc_def)
  show ?thesis by (subst h) (rule includesStr_append)
qed

lemma placeholder_style: \<open>includesStr placeholderDoc ''<style id="dynamic-style"></style>''\<close>
proof -
  have h: \<open>placeholderDoc =
          (''<!DOCTYPE html><html><head>'' @ getConsoleOverrideScript)
          @ ''<style id="dynamic-style"></style>''
          @ ''</head><body><p style="color:#fff;padding:1rem;">No HTML to preview.</p></body></html>''\<close>
    by (simp add: placeholderDoc_def emptyStyle_def styleId_def)
  show ?thesis by (subst h) (rule includesStr_append)
qed

lemma assemble_entry:
  assumes "[] \<notin> fst ` set af" "\<not> isReactProject af"
  shows "assemble build ff af lh act pv =
           (case entryBySpec af lh act of
              Some e \<Rightarrow> assembleHtml ff af e pv
            | None \<Rightarrow> (Inr (placeholderDoc, None, []), pv\<lparr>activeScript := None\<rparr>))"
  using assms entryBySpec_nonempty[OF assms(1), of lh act]
  by (auto simp: assemble_def selectEntry_spec split: option.splits)

lemma placeholder_pass:
  assumes c: "collected state = (ff, af)" and r: "\<not> isReactProject af"
    and n: "entryBySpec af (lastHtmlFile state) (activeFile state) = None" and i: "iframe pv"
  shows "bundleAndPreview build state False pv =
           (Inr None,
            pv\<lparr>assetUrlMap := [], activeScript := None, lastRenderedHtml := None,
               consoleMessages := [], srcdoc := placeholderDoc, isBundling := False\<rparr>)"
proof -
  have k: "[] \<notin> fst ` set af" using c collectFiles_keys unfolding collected_def by blast
  have a: "assemble build (fst (collected state)) (snd (collected state))
             (lastHtmlFile state) (activeFile state) (pv\<lparr>isBundling := True, assetUrlMap := []\<rparr>)
           = (Inr (placeholderDoc, None, []), pv\<lparr>isBundling := True, assetUrlMap := [], activeScript := None\<rparr>)"
    using assemble_entry[OF k r] n c by simp
  show ?thesis
    using pass_unfold[OF _ a, of False] i
    by (cases pv) (simp add: deliver_def truthy_def)
qed

text \<open>
  C3. On the path without bundling, for the maps collected from any editor state, the
  entry is chosen as the specification orders it: \<open>lastHtmlFile\<close> if its path is a key
  of \<open>allFiles\<close>, else an HTML \<open>activeFile\<close> whose path is a key, else the first
  key ending in \<open>.html\<close>; the assembler then works on that entry. With no entry the
  document is the placeholder, which contains \<open>No HTML to preview\<close> and the empty
  style element; the pass assigns it to the frame, creates no object URL and leaves the
  asset map empty.
\<close>

theorem entry_selection:
  assumes "collected state = (ff, af)" and "\<not> isReactProject af"
  shows \<open>(case entryBySpec af (lastHtmlFile state) (activeFile state) of
            Some e \<Rightarrow>
              assemble build ff af (lastHtmlFile state) (activeFile state) pv
                = assembleHtml ff af e pv
          | None \<Rightarrow>
              assemble build ff af (lastHtmlFile state) (activeFile state) pv
                = (Inr (placeholderDoc, None, []), pv\<lparr>activeScript := None\<rparr>)
              \<and> (iframe pv \<longrightarrow>
                   bundleAndPreview build state False pv =
                     (Inr None,
                      pv\<lparr>assetUrlMap := [], activeScript := None, lastRenderedHtml := None,
                         consoleMessages := [], srcdoc := placeholderDoc, isBundling := False\<rparr>)))
         \<and> includesStr placeholderDoc ''No HTML to preview''
         \<and> includesStr placeholderDoc ''<style id="dynamic-style"></style>''\<close>
proof -
  have k: "[] \<notin> fst ` set af" using assms(1) collectFiles_keys unfolding collected_def by blast
  show ?thesis
    using assemble_entry[OF k assms(2), of build ff "lastHtmlFile state" "activeFile state" pv]
          placeholder_pass[OF assms, of pv build] placeholder_message placeholder_style
    by (auto split: option.splits)
qed

theorem entry_selection_witness:
  \<open>collected cssOnlySession = ([], [(''development/styles.css'',
        ''body {\<newline>    background-color: white;\<newline>}\<newline>h1 {\<newline>    color: black;\<newline>}'')])
   \<and> bundleAndPreview okBuild cssOnlySession False initialPreview
       = (Inr None, initialPreview\<lparr>srcdoc := placeholderDoc\<rparr>)
   \<and> collected linkSession = (fst (collected linkSession), snd (collected linkSession))
   \<and> \<not> isReactProject (snd (collected linkSession))
   \<and> assemble okBuild (fst (collected linkSession)) (snd (collected linkSession))
         (lastHtmlFile linkSession) (activeFile linkSession) initialPreview
       = assembleHtml (fst (collected linkSession)) (snd (collected linkSession))
           ''development/page.html'' initialPreview\<close>
proof -
  let ?af = \<open>[(''development/styles.css'',
        ''body {\<newline>    background-color: white;\<newline>}\<newline>h1 {\<newline>    color: black;\<newline>}'')]\<close>
  have c: "collected cssOnlySession = ([], ?af)" by code_simp
  have r: "\<not> isReactProject ?af" by code_simp
  have n: "entryBySpec ?af (lastHtmlFile cssOnlySession) (activeFile cssOnlySession) = None"
    by code_simp
  have i: "iframe initialPreview" by (simp add: initialPreview_def)
  from entry_selection[OF c r, of okBuild initialPreview] n i
  have 1: "bundleAndPreview okBuild cssOnlySession False initialPreview
       = (Inr None, initialPreview\<lparr>srcdoc := placeholderDoc\<rparr>)"
    by (simp add: initialPreview_def)
  have c2: "collected linkSession = (fst (collected linkSession), snd (collected linkSession))"
    by simp
  have r2: "\<not> isReactProject (snd (collected linkSession))" by code_simp
  have n2: "entryBySpec (snd (collected linkSession)) (lastHtmlFile linkSession)
              (activeFile linkSession) = Some ''development/page.html''" by code_simp
  from entry_selection[OF c2 r2, of okBuild initialPreview] n2
  have 2: "assemble okBuild (fst (collected linkSession)) (snd (collected linkSession))
         (lastHtmlFile linkSession) (activeFile linkSession) initialPreview
       = assembleHtml (fst (collected linkSession)) (snd (collected linkSession))
           ''development/page.html'' initialPreview"
    by simp
  from c 1 c2 r2 2 show ?thesis by blast
qed

section \<open>Rewriting the tags\<close>

lemma matchItems_length:
  "matchItems r s = Some (ms, t) \<Longrightarrow> length t \<le> length s"
proof (induction r s arbitrary: ms t rule: matchItems.induct)
  case (6 k r x xs)
  then show ?case
    by (fastforce split: if_splits option.splits)
qed (auto split: if_splits option.splits)

lemma matchItems_suffix:
  "matchItems r s = Some (ms, t) \<Longrightarrow> \<exists>m. s = m @ t"
proof (induction r s arbitrary: ms t rule: matchItems.induct)
  case (4 k r x xs)
  then show ?case by (fastforce split: if_splits intro: exI[of _ "x # _"])
next
  case (6 k r x xs)
  show ?case
  proof (cases "inCls k x")
    case False
    with 6 show ?thesis by simp
  next
    case True
    show ?thesis
    proof (cases "matchItems (Star k # r) xs")
      case None
      with True 6 show ?thesis by simp
    next
      case (Some a)
      with True 6(4) have "matchItems (Star k # r) xs = Some (ms, t)" by simp
      from 6(1)[OF True this] show ?thesis by (metis append_Cons)
    qed
  qed
qed (auto split: if_splits option.splits)

lemma matchRegex_suffix:
  "matchRegex rx s = Some (ms, t) \<Longrightarrow> \<exists>m. s = m @ t"
  by (induction rx) (auto split: option.splits dest: matchItems_suffix)

lemma segments_text: "concat (map segText (segments rx s)) = s"
proof (induction rx s rule: segments.induct)
  case (1 rx)
  show ?case by simp
next
  case (2 rx c cs)
  show ?case
  proof (cases "matchRegex rx (c # cs)")
    case None
    with 2 show ?thesis by simp
  next
    case (Some a)
    obtain ms rest where a: "a = (ms, rest)" by (cases a)
    show ?thesis
    proof (cases "length rest < Suc (length cs)")
      case False
      with 2 Some a show ?thesis by simp
    next
      case True
      from matchRegex_suffix[OF Some[unfolded a]] obtain m where m: "c # cs = m @ rest" by blast
      then have t: "take (Suc (length cs) - length rest) (c # cs) = m"
        by (metis append_eq_conv_conj length_Cons length_append add_diff_cancel_right')
      have sg: "segments rx (c # cs) = Hit m (capture1 ms) # segments rx rest"
        using Some a True t by simp
      have ih: "concat (map segText (segments rx rest)) = rest"
        using 2(2)[OF Some[unfolded a] refl True] .
      have "concat (map segText (segments rx (c # cs))) = m @ rest"
        unfolding sg using ih by simp
      then show ?thesis using m by simp
    qed
  qed
qed

lemma rewriteSegs_pieces:
  assumes miss: "\<And>m g st. missing g \<Longrightarrow> f m g st = (Inr m, st)"
  shows "rewriteSegs f segs st = (Inr out, st') \<Longrightarrow>
         \<exists>ps. out = concat ps \<and> list_all2 (keptPiece missing) segs ps"
proof (induction segs arbitrary: st out st')
  case Nil
  then show ?case by simp
next
  case (Cons sg segs)
  show ?case
  proof (cases sg)
    case (Chr c)
    with Cons.prems obtain o1 where 1: "rewriteSegs f segs st = (Inr o1, st')" and o: "out = c # o1"
      by (auto split: prod.splits sum.splits)
    from Cons.IH[OF 1] obtain ps where "o1 = concat ps" "list_all2 (keptPiece missing) segs ps"
      by blast
    with o Chr have "out = concat ([c] # ps) \<and> list_all2 (keptPiece missing) (sg # segs) ([c] # ps)"
      by (simp add: keptPiece_def)
    then show ?thesis by blast
  next
    case (Hit m g)
    with Cons.prems obtain rep st1 o1 where f: "f m g st = (Inr rep, st1)"
      and 1: "rewriteSegs f segs st1 = (Inr o1, st')" and o: "out = rep @ o1"
      by (auto split: prod.splits sum.splits)
    from Cons.IH[OF 1] obtain ps where "o1 = concat ps" "list_all2 (keptPiece missing) segs ps"
      by blast
    moreover have "missing g \<Longrightarrow> rep = m" using miss[of g m st] f by simp
    ultimately have "out = concat (rep # ps) \<and> list_all2 (keptPiece missing) (sg # segs) (rep # ps)"
      using o Hit by (simp add: keptPiece_def)
    then show ?thesis by blast
  qed
qed

lemma rewriteSegs_all_missing:
  assumes miss: "\<And>m g st. missing g \<Longrightarrow> f m g st = (Inr m, st)"
  shows "list_all (\<lambda>sg. isHit sg \<longrightarrow> missing (group1 sg)) segs \<Longrightarrow>
         rewriteSegs f segs st = (Inr (concat (map segText segs)), st)"
proof (induction segs)
  case Nil
  show ?case by simp
next
  case (Cons sg segs)
  then show ?case by (cases sg) (auto simp: miss)
qed

lemma rewriteLink_missing:
  "lookupAsset ff af dir ref = None \<Longrightarrow> rewriteLink ff af dir m ref st = (Inr m, st)"
  by (simp add: rewriteLink_def)

lemma rewriteScript_missing:
  "lookupAsset ff af dir ref = None \<Longrightarrow> rewriteScript ff af dir m ref st = (Inr m, st)"
  by (simp add: rewriteScript_def)

lemma assembleHtml_all_missing:
  assumes h: "map_of af entry = Some html"
    and l: "list_all (\<lambda>sg. isHit sg \<longrightarrow> lookupAsset ff af (beforeLastSlash entry) (group1 sg) = None)
              (segments linkRegex (replaceFirst ''<head>'' (''<head>'' @ getConsoleOverrideScript) html))"
    and c: "list_all (\<lambda>sg. isHit sg \<longrightarrow> lookupAsset ff af (beforeLastSlash entry) (group1 sg) = None)
              (segments scriptRegex (replaceFirst ''<head>'' (''<head>'' @ getConsoleOverrideScript) html))"
  shows "assembleHtml ff af entry pv =
           (Inr (styleFallback af (replaceFirst ''<head>'' (''<head>'' @ getConsoleOverrideScript) html),
                 Some entry, []),
            pv\<lparr>activeScript := getActiveScriptFile html (beforeLastSlash entry) af\<rparr>)"
proof -
  define doc1 where "doc1 = replaceFirst ''<head>'' (''<head>'' @ getConsoleOverrideScript) html"
  define st0 where "st0 = (pv\<lparr>activeScript := getActiveScriptFile html (beforeLastSlash entry) af\<rparr>,
                           \<lparr>assetUrls = [], hasCss = False\<rparr>)"
  have 1: "rewriteSegs (rewriteLink ff af (beforeLastSlash entry)) (segments linkRegex doc1) st0
             = (Inr doc1, st0)"
    using rewriteSegs_all_missing[where missing="\<lambda>g. lookupAsset ff af (beforeLastSlash entry) g = None"
            and f="rewriteLink ff af (beforeLastSlash entry)", OF rewriteLink_missing l[folded doc1_def], of st0]
    by (simp add: segments_text)
  have 2: "rewriteSegs (rewriteScript ff af (beforeLastSlash entry)) (segments scriptRegex doc1) st0
             = (Inr doc1, st0)"
    using rewriteSegs_all_missing[where missing="\<lambda>g. lookupAsset ff af (beforeLastSlash entry) g = None"
            and f="rewriteScript ff af (beforeLastSlash entry)", OF rewriteScript_missing c[folded doc1_def], of st0]
    by (simp add: segments_text)
  show ?thesis
    unfolding assembleHtml_def Let_def h option.case doc1_def[symmetric] st0_def[symmetric] 1
    by (simp add: 2) (simp add: st0_def)
qed

lemma pass_all_missing:
  assumes r: "\<not> isReactProject (snd (collected state))"
    and e: "entryBySpec (snd (collected state)) (lastHtmlFile state) (activeFile state) = Some entry"
    and h: "map_of (snd (collected state)) entry = Some html"
    and l: "list_all (\<lambda>sg. isHit sg \<longrightarrow>
                lookupAsset (fst (collected state)) (snd (collected state))
                  (beforeLastSlash entry) (group1 sg) = None)
              (segments linkRegex (replaceFirst ''<head>'' (''<head>'' @ getConsoleOverrideScript) html))"
    and c: "list_all (\<lambda>sg. isHit sg \<longrightarrow>
                lookupAsset (fst (collected state)) (snd (collected state))
                  (beforeLastSlash entry) (group1 sg) = None)
              (segments scriptRegex (replaceFirst ''<head>'' (''<head>'' @ getConsoleOverrideScript) html))"
    and i: "iframe pv"
  shows "bundleAndPreview build state False pv =
           (Inr None,
            pv\<lparr>assetUrlMap := [],
               activeScript := getActiveScriptFile html (beforeLastSlash entry) (snd (collected state)),
               lastRenderedHtml := Some entry, consoleMessages := [],
               srcdoc := styleFallback (snd (collected state))
                           (replaceFirst ''<head>'' (''<head>'' @ getConsoleOverrideScript) html),
               isBundling := False\<rparr>)"
proof -
  have k: "[] \<notin> fst ` set (snd (collected state))"
    using collectFiles_keys[of "fileTree state" "activeFile state" "lastHtmlFile state"
            "fst (collected state)" "snd (collected state)"]
    unfolding collected_def by simp
  from entryBySpec_nonempty[OF k e] have ne: "entry \<noteq> []" .
  then have t: "truthy (Some entry)" by (cases entry) (simp_all add: truthy_def)
  have a: "assemble build (fst (collected state)) (snd (collected state))
             (lastHtmlFile state) (activeFile state) (pv\<lparr>isBundling := True, assetUrlMap := []\<rparr>)
           = (Inr (styleFallback (snd (collected state))
                     (replaceFirst ''<head>'' (''<head>'' @ getConsoleOverrideScript) html),
                   Some entry, []),
              pv\<lparr>isBundling := True, assetUrlMap := [],
                 activeScript := getActiveScriptFile html (beforeLastSlash entry) (snd (collected state))\<rparr>)"
    using assemble_entry[OF k r] e assembleHtml_all_missing[OF h l c] by simp
  show ?thesis
    using pass_unfold[OF _ a, of False] i t
    by (cases pv) (simp add: deliver_def)
qed

text \<open>
  C8, as the code has it. A stylesheet link or script tag whose reference is found
  neither in \<open>folderFiles\<close> nor in \<open>allFiles\<close>, under the resolved path or the
  fallback path, is returned by the callback as it was matched, with no state changed
  and nothing thrown. For the replace that visits it: a global replace cuts its input
  into pieces whose texts concatenate to the input; the output is the concatenation of
  one piece for each of them, where the piece of a character outside the tags is that
  character and the piece of a tag with a missing reference is that tag, byte for byte.
  When every matched tag is missing, the replace returns its input unchanged and does
  not fail. For the pass: when no stylesheet link and no script tag of the entry
  resolves, the assembler does not fail and creates no resource, and its document is the
  entry with nothing changed but the snippet injected at the first \<open><head>\<close> and the
  style fallback applied at the first \<open></head>\<close>; a live pass on the path without
  bundling assigns that document to the frame and leaves the asset map empty.
\<close>

theorem missing_asset_left_alone:
  "(lookupAsset ff af dir ref = None \<longrightarrow>
      rewriteLink ff af dir m ref st = (Inr m, st)
      \<and> rewriteScript ff af dir m ref st = (Inr m, st))
   \<and> concat (map segText (segments rx doc)) = doc
   \<and> (rewriteSegs (rewriteLink ff af dir) (segments rx doc) st = (Inr out, st') \<longrightarrow>
        (\<exists>ps. out = concat ps
           \<and> list_all2 (keptPiece (\<lambda>g. lookupAsset ff af dir g = None)) (segments rx doc) ps))
   \<and> (rewriteSegs (rewriteScript ff af dir) (segments rx doc) st = (Inr out, st') \<longrightarrow>
        (\<exists>ps. out = concat ps
           \<and> list_all2 (keptPiece (\<lambda>g. lookupAsset ff af dir g = None)) (segments rx doc) ps))
   \<and> (list_all (\<lambda>sg. isHit sg \<longrightarrow> lookupAsset ff af dir (group1 sg) = None) (segments rx doc) \<longrightarrow>
        rewriteSegs (rewriteLink ff af dir) (segments rx doc) st = (Inr doc, st)
        \<and> rewriteSegs (rewriteScript ff af dir) (segments rx doc) st = (Inr doc, st))
   \<and> (map_of af entry = Some html
        \<and> list_all (\<lambda>sg. isHit sg \<longrightarrow> lookupAsset ff af (beforeLastSlash entry) (group1 sg) = None)
             (segments linkRegex (replaceFirst ''<head>'' (''<head>'' @ getConsoleOverrideScript) html))
        \<and> list_all (\<lambda>sg. isHit sg \<longrightarrow> lookupAsset ff af (beforeLastSlash entry) (group1 sg) = None)
             (segments scriptRegex (replaceFirst ''<head>'' (''<head>'' @ getConsoleOverrideScript) html))
        \<longrightarrow>
        assembleHtml ff af entry pv =
          (Inr (styleFallback af (replaceFirst ''<head>'' (''<head>'' @ getConsoleOverrideScript) html),
                Some entry, []),
           pv\<lparr>activeScript := getActiveScriptFile html (beforeLastSlash entry) af\<rparr>))
   \<and> (\<not> isReactProject (snd (collected state))
        \<and> entryBySpec (snd (collected state)) (lastHtmlFile state) (activeFile state) = Some entry
        \<and> map_of (snd (collected state)) entry = Some html
        \<and> list_all (\<lambda>sg. isHit sg \<longrightarrow>
                lookupAsset (fst (collected state)) (snd (collected state))
                  (beforeLastSlash entry) (group1 sg) = None)
             (segments linkRegex (replaceFirst ''<head>'' (''<head>'' @ getConsoleOverrideScript) html))
        \<and> list_all (\<lambda>sg. isHit sg \<longrightarrow>
                lookupAsset (fst (collected state)) (snd (collected state))
                  (beforeLastSlash entry) (group1 sg) = None)
             (segments scriptRegex (replaceFirst ''<head>'' (''<head>'' @ getConsoleOverrideScript) html))
        \<and> iframe pv
        \<longrightarrow>
        bundleAndPreview build state False pv =
          (Inr None,
           pv\<lparr>assetUrlMap := [],
              activeScript := getActiveScriptFile html (beforeLastSlash entry) (snd (collected state)),
              lastRenderedHtml := Some entry, consoleMessages := [],
              srcdoc := styleFallback (snd (collected state))
                          (replaceFirst ''<head>'' (''<head>'' @ getConsoleOverrideScript) html),
              isBundling := False\<rparr>))"
proof (intro conjI impI)
  assume "lookupAsset ff af dir ref = None"
  then show "rewriteLink ff af dir m ref st = (Inr m, st)"
    and "rewriteScript ff af dir m ref st = (Inr m, st)"
    by (rule rewriteLink_missing, rule rewriteScript_missing)
next
  show "concat (map segText (segments rx doc)) = doc" by (rule segments_text)
next
  assume "rewriteSegs (rewriteLink ff af dir) (segments rx doc) st = (Inr out, st')"
  then show "\<exists>ps. out = concat ps
           \<and> list_all2 (keptPiece (\<lambda>g. lookupAsset ff af dir g = None)) (segments rx doc) ps"
    by (rule rewriteSegs_pieces[rotated]) (rule rewriteLink_missing)
next
  assume "rewriteSegs (rewriteScript ff af dir) (segments rx doc) st = (Inr out, st')"
  then show "\<exists>ps. out = concat ps
           \<and> list_all2 (keptPiece (\<lambda>g. lookupAsset ff af dir g = None)) (segments rx doc) ps"
    by (rule rewriteSegs_pieces[rotated]) (rule rewriteScript_missing)
next
  assume a: "list_all (\<lambda>sg. isHit sg \<longrightarrow> lookupAsset ff af dir (group1 sg) = None) (segments rx doc)"
  show "rewriteSegs (rewriteLink ff af dir) (segments rx doc) st = (Inr doc, st)"
    using rewriteSegs_all_missing[where missing="\<lambda>g. lookupAsset ff af dir g = None"
            and f="rewriteLink ff af dir", OF rewriteLink_missing a, of st]
    by (simp add: segments_text)
  show "rewriteSegs (rewriteScript ff af dir) (segments rx doc) st = (Inr doc, st)"
    using rewriteSegs_all_missing[where missing="\<lambda>g. lookupAsset ff af dir g = None"
            and f="rewriteScript ff af dir", OF rewriteScript_missing a, of st]
    by (simp add: segments_text)
next
  assume "map_of af entry = Some html
        \<and> list_all (\<lambda>sg. isHit sg \<longrightarrow> lookupAsset ff af (beforeLastSlash entry) (group1 sg) = None)
             (segments linkRegex (replaceFirst ''<head>'' (''<head>'' @ getConsoleOverrideScript) html))
        \<and> list_all (\<lambda>sg. isHit sg \<longrightarrow> lookupAsset ff af (beforeLastSlash entry) (group1 sg) = None)
             (segments scriptRegex (replaceFirst ''<head>'' (''<head>'' @ getConsoleOverrideScript) html))"
  then show "assembleHtml ff af entry pv =
          (Inr (styleFallback af (replaceFirst ''<head>'' (''<head>'' @ getConsoleOverrideScript) html),
                Some entry, []),
           pv\<lparr>activeScript := getActiveScriptFile html (beforeLastSlash entry) af\<rparr>)"
    using assembleHtml_all_missing by blast
next
  assume "\<not> isReactProject (snd (collected state))
        \<and> entryBySpec (snd (collected state)) (lastHtmlFile state) (activeFile state) = Some entry
        \<and> map_of (snd (collected state)) entry = Some html
        \<and> list_all (\<lambda>sg. isHit sg \<longrightarrow>
                lookupAsset (fst (collected state)) (snd (collected state))
                  (beforeLastSlash entry) (group1 sg) = None)
             (segments linkRegex (replaceFirst ''<head>'' (''<head>'' @ getConsoleOverrideScript) html))
        \<and> list_all (\<lambda>sg. isHit sg \<longrightarrow>
                lookupAsset (fst (collected state)) (snd (collected state))
                  (beforeLastSlash entry) (group1 sg) = None)
             (segments scriptRegex (replaceFirst ''<head>'' (''<head>'' @ getConsoleOverrideScript) html))
        \<and> iframe pv"
  then show "bundleAndPreview build state False pv =
          (Inr None,
           pv\<lparr>assetUrlMap := [],
              activeScript := getActiveScriptFile html (beforeLastSlash entry) (snd (collected state)),
              lastRenderedHtml := Some entry, consoleMessages := [],
              srcdoc := styleFallback (snd (collected state))
                          (replaceFirst ''<head>'' (''<head>'' @ getConsoleOverrideScript) html),
              isBundling := False\<rparr>)"
    using pass_all_missing by blast
qed

text \<open>
  The example of the specification: a link to \<open>./missing.css\<close> and no such file
  anywhere. The callback and the replace return the tag as it was, and the assembled
  document is the page, byte for byte; so is the document that a live pass assigns to
  the frame when the page was added and opened in the editor.
\<close>

theorem missing_asset_left_alone_witness:
  \<open>lookupAsset [] missingPage ''development'' ''./missing.css'' = None
   \<and> rewriteLink [] missingPage ''development'' ''<link href="./missing.css" rel="stylesheet">''
        ''./missing.css'' (initialPreview, \<lparr>assetUrls = [], hasCss = False\<rparr>)
       = (Inr ''<link href="./missing.css" rel="stylesheet">'',
          (initialPreview, \<lparr>assetUrls = [], hasCss = False\<rparr>))
   \<and> segments linkRegex ''<p><link href="./missing.css" rel="stylesheet"></p>''
       = [Chr CHR ''<'', Chr CHR ''p'', Chr CHR ''>'',
          Hit ''<link href="./missing.css" rel="stylesheet">'' ''./missing.css'',
          Chr CHR ''<'', Chr CHR ''/'', Chr CHR ''p'', Chr CHR ''>'']
   \<and> rewriteSegs (rewriteLink [] missingPage ''development'')
         (segments linkRegex ''<p><link href="./missing.css" rel="stylesheet"></p>'')
         (initialPreview, \<lparr>assetUrls = [], hasCss = False\<rparr>)
       = (Inr ''<p><link href="./missing.css" rel="stylesheet"></p>'',
          (initialPreview, \<lparr>assetUrls = [], hasCss = False\<rparr>))
   \<and> map_of missingPage ''development/index.html''
       = Some ''<p><link href="./missing.css" rel="stylesheet"></p>''
   \<and> assembleHtml [] missingPage ''development/index.html'' initialPreview
       = (Inr (''<p><link href="./missing.css" rel="stylesheet"></p>'',
               Some ''development/index.html'', []),
          initialPreview)
   \<and> iframe initialPreview
   \<and> bundleAndPreview okBuild missingSession False initialPreview
       = (Inr None,
          initialPreview\<lparr>lastRenderedHtml := Some ''development/page.html'',
            srcdoc := ''<p><link href="./missing.css" rel="stylesheet"></p>''\<rparr>)\<close>
proof -
  let ?doc = \<open>''<p><link href="./missing.css" rel="stylesheet"></p>''\<close>
  let ?st = "(initialPreview, \<lparr>assetUrls = [], hasCss = False\<rparr>)"
  have l: "lookupAsset [] missingPage ''development'' ''./missing.css'' = None" by code_simp
  have sg: \<open>segments linkRegex ?doc
       = [Chr CHR ''<'', Chr CHR ''p'', Chr CHR ''>'',
          Hit ''<link href="./missing.css" rel="stylesheet">'' ''./missing.css'',
          Chr CHR ''<'', Chr CHR ''/'', Chr CHR ''p'', Chr CHR ''>'']\<close> by code_simp
  have ss: "list_all (\<lambda>sg. \<not> isHit sg) (segments scriptRegex ?doc)" by code_simp
  have al: "list_all (\<lambda>sg. isHit sg \<longrightarrow> lookupAsset [] missingPage ''development'' (group1 sg) = None)
              (segments linkRegex ?doc)"
    unfolding sg using l by simp
  have as: "list_all (\<lambda>sg. isHit sg \<longrightarrow> lookupAsset [] missingPage ''development'' (group1 sg) = None)
              (segments scriptRegex ?doc)"
    using ss by (simp add: list_all_iff)
  have h: "map_of missingPage ''development/index.html'' = Some ?doc" by code_simp
  have d: "beforeLastSlash ''development/index.html'' = ''development''" by code_simp
  have i: "replaceFirst ''<head>'' (''<head>'' @ getConsoleOverrideScript) ?doc = ?doc" by code_simp
  have f: "styleFallback missingPage ?doc = ?doc" by code_simp
  have g: "getActiveScriptFile ?doc ''development'' missingPage = None" by code_simp
  note t = missing_asset_left_alone
         [where ff = "[]" and af = missingPage and dir = "''development''"
            and ref = "''./missing.css''"
            and m = \<open>''<link href="./missing.css" rel="stylesheet">''\<close>
            and st = ?st and rx = linkRegex and doc = ?doc
            and entry = "''development/index.html''" and html = ?doc and pv = initialPreview]
  note p = missing_asset_left_alone
         [where state = missingSession and entry = "''development/page.html''" and html = ?doc
            and pv = initialPreview and build = okBuild]
  let ?ff = "fst (collected missingSession)"
  let ?af = "snd (collected missingSession)"
  have pr: "\<not> isReactProject ?af" by code_simp
  have pe: "entryBySpec ?af (lastHtmlFile missingSession) (activeFile missingSession)
              = Some ''development/page.html''" by code_simp
  have ph: "map_of ?af ''development/page.html'' = Some ?doc" by code_simp
  have pd: "beforeLastSlash ''development/page.html'' = ''development''" by code_simp
  have pl: "list_all (\<lambda>sg. isHit sg \<longrightarrow> lookupAsset ?ff ?af ''development'' (group1 sg) = None)
              (segments linkRegex ?doc)" by code_simp
  have pc: "list_all (\<lambda>sg. isHit sg \<longrightarrow> lookupAsset ?ff ?af ''development'' (group1 sg) = None)
              (segments scriptRegex ?doc)" by code_simp
  have pi: "iframe initialPreview" by (simp add: initialPreview_def)
  have pf: "styleFallback ?af ?doc = ?doc" by code_simp
  have pg: "getActiveScriptFile ?doc ''development'' ?af = None" by code_simp
  from t l have 1: \<open>rewriteLink [] missingPage ''development''
        ''<link href="./missing.css" rel="stylesheet">'' ''./missing.css'' ?st
       = (Inr ''<link href="./missing.css" rel="stylesheet">'', ?st)\<close> by blast
  from t al have 2: "rewriteSegs (rewriteLink [] missingPage ''development'')
         (segments linkRegex ?doc) ?st = (Inr ?doc, ?st)" by blast
  from t h al as have "assembleHtml [] missingPage ''development/index.html'' initialPreview =
          (Inr (styleFallback missingPage
                  (replaceFirst ''<head>'' (''<head>'' @ getConsoleOverrideScript) ?doc),
                Some ''development/index.html'', []),
           initialPreview\<lparr>activeScript :=
             getActiveScriptFile ?doc (beforeLastSlash ''development/index.html'') missingPage\<rparr>)"
    unfolding d i by blast
  then have a: \<open>assembleHtml [] missingPage ''development/index.html'' initialPreview
       = (Inr (?doc, Some ''development/index.html'', []), initialPreview)\<close>
    unfolding d i f g by (simp add: initialPreview_def)
  from p pr pe ph pl pc pi have "bundleAndPreview okBuild missingSession False initialPreview =
          (Inr None,
           initialPreview\<lparr>assetUrlMap := [],
              activeScript := getActiveScriptFile ?doc (beforeLastSlash ''development/page.html'') ?af,
              lastRenderedHtml := Some ''development/page.html'', consoleMessages := [],
              srcdoc := styleFallback ?af
                          (replaceFirst ''<head>'' (''<head>'' @ getConsoleOverrideScript) ?doc),
              isBundling := False\<rparr>)"
    unfolding pd i by blast
  then have b: \<open>bundleAndPreview okBuild missingSession False initialPreview
       = (Inr None,
          initialPreview\<lparr>lastRenderedHtml := Some ''development/page.html'', srcdoc := ?doc\<rparr>)\<close>
    unfolding pd i pf pg by (simp add: initialPreview_def)
  from l 1 sg 2 h a pi b show ?thesis by blast
qed

text \<open>
  C8 as stated fails. In a page opened next to the default HTML file, a link to
  \<open>./missing.css\<close>, which no file matches, does not reach the document as it was
  written. With \<open></head>\<close> in its \<open>title\<close> attribute the style fallback puts the
  empty style element into the tag; inside an attribute of a script tag whose \<open>src\<close>
  resolves, the link is dropped with the script tag that the later replace rewrites.
\<close>

theorem missing_link_altered:
  \<open>map_of (snd (collected headInTitleSession)) ''development/page.html''
     = Some ''<link href="./missing.css" rel="stylesheet" title="</head>">''
   \<and> lookupAsset (fst (collected headInTitleSession)) (snd (collected headInTitleSession))
         ''development'' ''./missing.css'' = None
   \<and> srcdoc (snd (bundleAndPreview okBuild headInTitleSession False initialPreview))
     = ''<link href="./missing.css" rel="stylesheet" title="<style id="dynamic-style"></style></head>">''
   \<and> map_of (snd (collected linkInScriptSession)) ''development/page.html''
     = Some ''<script src="app.js" x='<link href="./missing.css" rel="stylesheet">'></script>''
   \<and> lookupAsset (fst (collected linkInScriptSession)) (snd (collected linkInScriptSession))
         ''development'' ''./missing.css'' = None
   \<and> srcdoc (snd (bundleAndPreview okBuild linkInScriptSession False initialPreview))
     = ''<script src="blob:0"></script>'></script>''\<close>
  by code_simp

lemma includesStr_set: "includesStr s p \<Longrightarrow> set p \<subseteq> set s"
proof (induction s)
  case Nil
  then show ?case by simp
next
  case (Cons c cs)
  from Cons.prems have "startsWith (c # cs) p \<or> includesStr cs p" by simp
  then show ?case
  proof
    assume "startsWith (c # cs) p"
    then have "take (length p) (c # cs) = p" by (simp add: startsWith_def)
    then show ?thesis by (metis set_take_subset)
  next
    assume "includesStr cs p"
    with Cons.IH show ?thesis by auto
  qed
qed

lemma digits_set: "set (digits f n) \<subseteq> set ''0123456789''"
proof (induction f arbitrary: n)
  case 0
  show ?case by simp
next
  case (Suc f)
  have d: "k < 10 \<Longrightarrow> ''0123456789'' ! k \<in> set ''0123456789''" for k
    by (rule nth_mem) simp
  have m: "''0123456789'' ! (n mod 10) \<in> set ''0123456789''" by (rule d) simp
  show ?case
  proof (cases "n < 10")
    case True
    with d[of n] show ?thesis by simp
  next
    case False
    with Suc[of "n div 10"] m show ?thesis by simp
  qed
qed

lemma blobUrl_set: "set (blobUrl n) \<subseteq> set ''blob:0123456789''"
  using digits_set[of "Suc n" n] unfolding blobUrl_def by auto

lemma plain_tag_no_module:
  \<open>\<not> includesStr (''<script'' @ [] @ '' src="'' @ blobUrl n @ ''"></script>'') '' type="module"''\<close>
proof
  assume \<open>includesStr (''<script'' @ [] @ '' src="'' @ blobUrl n @ ''"></script>'') '' type="module"''\<close>
  from includesStr_set[OF this]
  have \<open>CHR ''y'' \<in> set (''<script'' @ [] @ '' src="'' @ blobUrl n @ ''"></script>'')\<close>
    by auto
  then have "CHR ''y'' \<in> set (blobUrl n)" by auto
  with blobUrl_set[of n] show False by auto
qed

lemma module_tag_has_module:
  \<open>includesStr (''<script'' @ '' type="module"'' @ '' src="'' @ blobUrl n @ ''"></script>'') '' type="module"''\<close>
  by (rule includesStr_append)

lemma rewriteScript_found:
  assumes "lookupAsset ff af dir src = Some (p, Some jsText)"
  shows \<open>rewriteScript ff af dir m src st =
          (Inr (''<script'' @ (if isModule jsText then '' type="module"'' else [])
                 @ '' src="'' @ blobUrl (length (blobStore (fst st))) @ ''"></script>''),
           recordAsset p (blobUrl (length (blobStore (fst st))))
             ((fst st)\<lparr>blobStore := blobStore (fst st) @
                 [(blobUrl (length (blobStore (fst st))),
                   \<lparr>blobText = jsText, blobType = ''application/javascript''\<rparr>)]\<rparr>,
              snd st))\<close>
  using assms by (simp add: rewriteScript_def createObjectURL_def Let_def blobPart_def)


text \<open>
  C7, as the code has it. For a script tag whose \<open>src\<close> resolves to a file with
  content, the callback stores the content as a JavaScript resource and returns a script
  tag for its URL; the tag contains \<open>type="module"\<close> if and only if the content
  contains the text \<open>import\<close> followed by a space or the text \<open>export\<close> followed
  by a space, wherever that text stands.
\<close>

theorem module_attribute:
  \<open>lookupAsset ff af dir src = Some (p, Some jsText) \<longrightarrow>
     (\<exists>tag st'. rewriteScript ff af dir m src st = (Inr tag, st')
        \<and> tag = ''<script'' @ (if includesStr jsText ''import '' \<or> includesStr jsText ''export ''
                               then '' type="module"'' else [])
                 @ '' src="'' @ blobUrl (length (blobStore (fst st))) @ ''"></script>''
        \<and> blobStore (fst st') = blobStore (fst st) @
              [(blobUrl (length (blobStore (fst st))),
                \<lparr>blobText = jsText, blobType = ''application/javascript''\<rparr>)]
        \<and> (includesStr tag '' type="module"''
             \<longleftrightarrow> includesStr jsText ''import '' \<or> includesStr jsText ''export ''))\<close>
proof
  assume a: "lookupAsset ff af dir src = Some (p, Some jsText)"
  show \<open>\<exists>tag st'. rewriteScript ff af dir m src st = (Inr tag, st')
        \<and> tag = ''<script'' @ (if includesStr jsText ''import '' \<or> includesStr jsText ''export ''
                               then '' type="module"'' else [])
                 @ '' src="'' @ blobUrl (length (blobStore (fst st))) @ ''"></script>''
        \<and> blobStore (fst st') = blobStore (fst st) @
              [(blobUrl (length (blobStore (fst st))),
                \<lparr>blobText = jsText, blobType = ''application/javascript''\<rparr>)]
        \<and> (includesStr tag '' type="module"''
             \<longleftrightarrow> includesStr jsText ''import '' \<or> includesStr jsText ''export '')\<close>
    unfolding rewriteScript_found[OF a] isModule_def
    using plain_tag_no_module[of "length (blobStore (fst st))"]
          module_tag_has_module[of "length (blobStore (fst st))"]
    by (cases "includesStr jsText ''import '' \<or> includesStr jsText ''export ''")
       (simp_all add: recordAsset_def del: includesStr.simps append_Nil append_Cons)
qed


text \<open>
  The example of the specification: \<open>development/index.html\<close> refers to \<open>app.js\<close>,
  whose content is \<open>export const x=1;\<close>; the rewritten tag carries \<open>type="module"\<close>,
  in the callback and in the assembled document.
\<close>

theorem module_attribute_witness:
  \<open>lookupAsset twoFolder twoAll ''development'' ''app.js''
     = Some (''development/app.js'', Some ''export const x=1;'')
   \<and> (\<exists>tag st'. rewriteScript twoFolder twoAll ''development'' ''<script src="app.js">'' ''app.js''
                     (initialPreview, \<lparr>assetUrls = [], hasCss = False\<rparr>) = (Inr tag, st')
          \<and> tag = ''<script type="module" src="blob:0"></script>''
          \<and> includesStr tag '' type="module"'')
   \<and> fst (assembleHtml twoFolder twoAll ''development/index.html'' initialPreview)
       = Inr (''<link rel="stylesheet" href="blob:0"><link href="./missing.css" rel="stylesheet"><script type="module" src="blob:1"></script></script>'',
              Some ''development/index.html'',
              [(''development/styles.css'', ''blob:0''), (''development/app.js'', ''blob:1'')])\<close>
proof -
  have l: "lookupAsset twoFolder twoAll ''development'' ''app.js''
     = Some (''development/app.js'', Some ''export const x=1;'')" by code_simp
  have e: "includesStr ''export const x=1;'' ''import '' \<or> includesStr ''export const x=1;'' ''export ''"
    by code_simp
  have u: "blobUrl (length (blobStore (fst (initialPreview, \<lparr>assetUrls = [], hasCss = False\<rparr>)))) = ''blob:0''"
    by code_simp
  have d: \<open>fst (assembleHtml twoFolder twoAll ''development/index.html'' initialPreview)
       = Inr (''<link rel="stylesheet" href="blob:0"><link href="./missing.css" rel="stylesheet"><script type="module" src="blob:1"></script></script>'',
              Some ''development/index.html'',
              [(''development/styles.css'', ''blob:0''), (''development/app.js'', ''blob:1'')])\<close>
    by code_simp
  from module_attribute
         [of twoFolder twoAll "''development''" "''app.js''" "''development/app.js''"
             "''export const x=1;''" \<open>''<script src="app.js">''\<close>
             "(initialPreview, \<lparr>assetUrls = [], hasCss = False\<rparr>)"] l
  obtain tag st' where t:
    \<open>rewriteScript twoFolder twoAll ''development'' ''<script src="app.js">'' ''app.js''
                     (initialPreview, \<lparr>assetUrls = [], hasCss = False\<rparr>) = (Inr tag, st')\<close>
    \<open>tag = ''<script'' @ (if includesStr ''export const x=1;'' ''import ''
                               \<or> includesStr ''export const x=1;'' ''export ''
                            then '' type="module"'' else [])
            @ '' src="'' @ blobUrl (length (blobStore (fst (initialPreview, \<lparr>assetUrls = [], hasCss = False\<rparr>)))) @ ''"></script>''\<close>
    \<open>includesStr tag '' type="module"''
       \<longleftrightarrow> includesStr ''export const x=1;'' ''import '' \<or> includesStr ''export const x=1;'' ''export ''\<close>
    by blast
  from t(2) e u have \<open>tag = ''<script type="module" src="blob:0"></script>''\<close>
    by (simp only: if_True append.simps)
  with t(1) t(3) e l d show ?thesis by blast
qed

text \<open>
  C7 as stated fails. The test is for the two texts, not for statements. A script that
  imports and exports without a space after the keyword is loaded as a classic script;
  a script that has the text \<open>export\<close> and a space inside a string literal, and no
  import or export statement, is loaded as a module.
\<close>

theorem module_test_is_textual:
  \<open>map_of (snd (collected (scriptSession compactModule))) ''development/app.js''
     = Some ''import{x}from"./a.js";export{x};''
   \<and> srcdoc (snd (bundleAndPreview okBuild (scriptSession compactModule) False initialPreview))
     = ''<script src="blob:0"></script></script>''
   \<and> map_of (snd (collected (scriptSession plainScript))) ''development/app.js''
     = Some ''var s = "we export nothing";''
   \<and> srcdoc (snd (bundleAndPreview okBuild (scriptSession plainScript) False initialPreview))
     = ''<script type="module" src="blob:0"></script></script>''\<close>
  by code_simp


section \<open>The detection of a React project\<close>

text \<open>
  Every path the reducer stores in the tree starts with \<open>development\<close> or with a
  slash: \<open>assignFullPaths\<close> gives a node a path under \<open>development\<close>, and renaming
  a node keeps what stands before the last slash of its path.
\<close>

lemma rooted_nonempty: "rooted p \<Longrightarrow> p \<noteq> []"
  by (auto simp: rooted_def startsWith_def)

lemma rooted_dev: "rooted (''development/'' @ xs)" "rooted ''development''"
  by (simp_all add: rooted_def startsWith_def)

lemma dev_replaceDevProject:
  "startsWith s ''development'' \<Longrightarrow> startsWith (replaceDevProject s) ''development''"
  unfolding replaceDevProject_def Let_def
  by (simp add: startsWith_def del: stripDevelopment.simps)

lemma dev_replaceDevRun:
  "startsWith s ''development'' \<Longrightarrow> startsWith (replaceDevRun s) ''development''"
  unfolding replaceDevRun_def
  by (simp add: startsWith_def del: stripDevelopment.simps)

lemma rooted_assignedPath: "rooted (assignedPath nm base)"
proof -
  define fp where "fp = (if nm = ''development'' then ''development''
       else ''development/'' @ (if base \<noteq> [] \<and> nm \<noteq> ''development'' then base @ ''/'' @ nm else nm))"
  have "startsWith fp ''development''" unfolding fp_def by (simp add: startsWith_def)
  then have "startsWith (replaceDevRun (replaceDevProject fp)) ''development''"
    by (intro dev_replaceDevRun dev_replaceDevProject)
  moreover have "assignedPath nm base = replaceDevRun (replaceDevProject fp)"
    unfolding assignedPath_def Let_def fp_def ..
  ultimately show ?thesis by (simp add: rooted_def)
qed

lemma storedPaths_assign:
  "p \<in> set (storedPaths (assignFullPaths n b)) \<Longrightarrow> rooted p"
proof (induction n arbitrary: b p)
  case (FileNode i nm ty co ch fp)
  show ?case
  proof (cases ch)
    case None
    with FileNode.prems show ?thesis by (simp add: Let_def rooted_assignedPath)
  next
    case (Some cs)
    with FileNode.prems have "p = assignedPath nm b
        \<or> (\<exists>c\<in>set cs. \<exists>b'. p \<in> set (storedPaths (assignFullPaths c b')))"
      by (auto simp: Let_def)
    then show ?thesis
    proof
      assume "p = assignedPath nm b" then show ?thesis by (simp add: rooted_assignedPath)
    next
      assume "\<exists>c\<in>set cs. \<exists>b'. p \<in> set (storedPaths (assignFullPaths c b'))"
      then obtain c b' where "c \<in> set cs" "p \<in> set (storedPaths (assignFullPaths c b'))" by blast
      with FileNode.IH Some show ?thesis by auto
    qed
  qed
qed

lemma beforeLastSlash_split:
  assumes "CHR ''/'' \<in> set s"
  shows "\<exists>post. s = beforeLastSlash s @ CHR ''/'' # post \<and> CHR ''/'' \<notin> set post"
proof -
  from split_list_last[OF assms] obtain pre post where s: "s = pre @ CHR ''/'' # post"
    and n: "CHR ''/'' \<notin> set post" by blast
  have "takeWhile (\<lambda>c. c \<noteq> CHR ''/'') (rev post @ CHR ''/'' # rev pre)
          = rev post @ takeWhile (\<lambda>c. c \<noteq> CHR ''/'') (CHR ''/'' # rev pre)"
    by (rule takeWhile_append2) (use n in auto)
  then have "takeWhile (\<lambda>c. c \<noteq> CHR ''/'') (rev s) = rev post"
    unfolding s by simp
  then have "beforeLastSlash s = pre" using assms unfolding beforeLastSlash_def by (simp add: s)
  with s n show ?thesis by auto
qed

lemma rooted_rename:
  assumes "rooted fp" shows "rooted (beforeLastSlash fp @ ''/'' @ nn)"
proof (cases "CHR ''/'' \<in> set fp")
  case False
  then show ?thesis by (simp add: beforeLastSlash_def rooted_def startsWith_def)
next
  case True
  from beforeLastSlash_split[OF True] obtain post where
    s: "fp = beforeLastSlash fp @ CHR ''/'' # post" by blast
  define pre where "pre = beforeLastSlash fp"
  have fp: "fp = pre @ CHR ''/'' # post" using s pre_def by simp
  from assms show ?thesis unfolding rooted_def
  proof
    assume "startsWith fp ''/''"
    then have "startsWith (pre @ ''/'' @ nn) ''/''"
      unfolding fp by (cases pre) (simp_all add: startsWith_def)
    then show "startsWith (beforeLastSlash fp @ ''/'' @ nn) ''development''
               \<or> startsWith (beforeLastSlash fp @ ''/'' @ nn) ''/''"
      by (simp add: pre_def)
  next
    assume d: "startsWith fp ''development''"
    define dv where "dv = ''development''"
    have nd: "CHR ''/'' \<notin> set dv" by (simp add: dv_def)
    from d have t: "take (length dv) fp = dv" by (simp add: startsWith_def dv_def)
    have le: "length dv \<le> length pre"
    proof (rule ccontr)
      assume "\<not> length dv \<le> length pre"
      then have l: "length pre < length dv" by simp
      have "(take (length dv) fp) ! length pre = fp ! length pre" using l by simp
      also have "\<dots> = CHR ''/''" unfolding fp by simp
      finally have "dv ! length pre = CHR ''/''" using t by simp
      with nth_mem[OF l] nd show False by simp
    qed
    with t have "take (length dv) pre = dv" unfolding fp by simp
    with le have "take (length dv) (pre @ ''/'' @ nn) = dv" by simp
    then have "startsWith (pre @ ''/'' @ nn) ''development''"
      unfolding startsWith_def dv_def .
    then show "startsWith (beforeLastSlash fp @ ''/'' @ nn) ''development''
               \<or> startsWith (beforeLastSlash fp @ ''/'' @ nn) ''/''"
      by (simp add: pre_def)
  qed
qed

lemma update_storedPaths:
  "update a n = Some n' \<Longrightarrow> \<forall>p\<in>set (storedPaths n). rooted p \<Longrightarrow> q \<in> set (storedPaths n') \<Longrightarrow> rooted q"
proof (induction n arbitrary: n' q)
  case (FileNode i nm ty co ch fp)
  have IH: "\<And>cs c m x. ch = Some cs \<Longrightarrow> c \<in> set cs \<Longrightarrow> update a c = Some m
              \<Longrightarrow> x \<in> set (storedPaths m) \<Longrightarrow> rooted x"
  proof -
    fix cs c m x assume h: "ch = Some cs" "c \<in> set cs" "update a c = Some m" "x \<in> set (storedPaths m)"
    from h(1,2) FileNode.prems(2) have "\<forall>p\<in>set (storedPaths c). rooted p" by auto
    with FileNode.IH h show "rooted x" by auto
  qed
  have r0: "rooted fp" using FileNode.prems(2) by simp
  have old: "ch = Some cs \<Longrightarrow> x \<in> set (concat (map storedPaths cs)) \<Longrightarrow> rooted x" for cs x
    using FileNode.prems(2) by auto
  from update_cases[OF FileNode.prems(1)] show ?case
  proof (elim disjE exE conjE)
    fix p m assume "a = ADD_NODE p m" and
      n: "n' = FileNode i nm ty co
              (Some ((case ch of None \<Rightarrow> [] | Some cs \<Rightarrow> cs) @ [assignFullPaths m fp])) fp"
    with FileNode.prems(3) r0 old show ?thesis
      by (cases ch) (auto simp: storedPaths_assign)
  next
    fix k nn assume "a = RENAME_NODE k nn"
      and "n' = FileNode i nn ty co ch (beforeLastSlash fp @ ''/'' @ nn)"
    with FileNode.prems(3) old rooted_rename[OF r0, of nn] show ?thesis
      by (cases ch) auto
  next
    fix cs assume c: "ch = Some cs" and n: "n' = FileNode i nm ty co (Some (survivors a cs)) fp"
    from FileNode.prems(3) n have "q = fp \<or> q \<in> set (concat (map storedPaths (survivors a cs)))"
      by auto
    then show ?thesis
    proof
      assume "q = fp" with r0 show ?thesis by simp
    next
      assume "q \<in> set (concat (map storedPaths (survivors a cs)))"
      then obtain c' m where "c' \<in> set cs" "update a c' = Some m" "q \<in> set (storedPaths m)"
        unfolding survivors_def by auto
      with IH[OF c] show ?thesis by blast
    qed
  next
    assume "ch = None" and "n' = FileNode i nm ty co ch fp"
    with FileNode.prems(3) r0 show ?thesis by auto
  qed
qed

lemma storedPaths_updateNodeContent:
  "storedPaths (updateNodeContent n k c) = storedPaths n"
proof (induction n)
  case (FileNode i nm ty co ch fp)
  show ?case
  proof (cases ch)
    case None
    then show ?thesis by simp
  next
    case (Some cs)
    have h: "map (\<lambda>x. storedPaths (updateNodeContent x k c)) cs = map storedPaths cs"
      using FileNode Some by (intro map_cong) auto
    show ?thesis using Some by (simp add: comp_def h)
  qed
qed

lemma reducer_storedPaths:
  assumes "\<forall>p\<in>set (storedPaths (fileTree s)). rooted p"
  shows "\<forall>p\<in>set (storedPaths (fileTree (reducer s a))). rooted p"
proof -
  have te: "\<forall>p\<in>set (storedPaths (fileTree (treeEdit s a'))). rooted p" for a'
  proof (cases "update a' (fileTree s)")
    case None
    with assms show ?thesis by (simp add: treeEdit_def Let_def)
  next
    case (Some t)
    with update_storedPaths[OF Some assms] show ?thesis by (simp add: treeEdit_def Let_def)
  qed
  show ?thesis
  proof (cases a)
    case (UPDATE_CONTENT c)
    with assms show ?thesis by (auto split: option.splits)
  next
    case (SAVE_FILE k)
    with assms show ?thesis by (simp add: Let_def storedPaths_updateNodeContent)
  qed (insert te assms, auto simp: Let_def)
qed

lemma session_storedPaths:
  "\<forall>p\<in>set (storedPaths (fileTree s)). rooted p \<Longrightarrow>
   \<forall>p\<in>set (storedPaths (fileTree (foldl reducer s actions))). rooted p"
proof (induction actions arbitrary: s)
  case Nil
  then show ?case by simp
next
  case (Cons a actions)
  from Cons.IH[OF reducer_storedPaths[OF Cons.prems, of a]] show ?case by simp
qed


lemma storedPaths_children:
  "children n = Some cs \<Longrightarrow> c \<in> set cs \<Longrightarrow> set (storedPaths c) \<subseteq> set (storedPaths n)"
  by (cases n) auto

lemma traverse_rooted:
  "\<forall>k\<in>fst ` set (snd maps). rooted k \<Longrightarrow> \<forall>p\<in>set (storedPaths n). rooted p \<Longrightarrow>
     \<forall>k\<in>fst ` set (snd (traverse fp n base maps)). rooted k"
  "\<forall>k\<in>fst ` set (snd maps). rooted k \<Longrightarrow> \<forall>n\<in>set ns. \<forall>p\<in>set (storedPaths n). rooted p \<Longrightarrow>
     \<forall>k\<in>fst ` set (snd (traverseAll fp ns base maps)). rooted k"
proof (induction fp n base maps and fp ns base maps rule: traverse_traverseAll.induct)
  case (1 folderPath i nm ty co ch fp base folderFiles allFiles)
  from 1(3) have r: "rooted fp" by simp
  then have p: "pathOf (FileNode i nm ty co ch fp) base = fp"
    using rooted_nonempty by (simp add: pathOf_def)
  show ?case
  proof (cases "ty = TFile")
    case True
    define v where "v = (case co of Some c \<Rightarrow> c | None \<Rightarrow> [])"
    have k: "\<forall>k\<in>fst ` set (mapSet fp v allFiles). rooted k"
      unfolding mapSet_keys using 1(2) r by simp
    have "snd (traverse folderPath (FileNode i nm ty co ch fp) base (folderFiles, allFiles))
            = mapSet fp v allFiles"
      unfolding traverse.simps p Let_def v_def using True by simp
    then show ?thesis using k by (simp only:)
  next
    case False
    show ?thesis
    proof (cases ch)
      case None
      with False 1(2) show ?thesis by (simp add: Let_def)
    next
      case (Some cs)
      from 1(3) Some have c: "\<forall>n\<in>set cs. \<forall>p\<in>set (storedPaths n). rooted p" by auto
      from 1(1)[OF refl False Some 1(2) c] False Some show ?thesis
        by (simp add: Let_def)
    qed
  qed
next
  case (2 folderPath base maps)
  then show ?case by simp
next
  case (3 folderPath c cs base maps)
  from 3(4) have a: "\<forall>p\<in>set (storedPaths c). rooted p"
    and b: "\<forall>n\<in>set cs. \<forall>p\<in>set (storedPaths n). rooted p" by auto
  from 3(2)[OF 3(1)[OF 3(3) a] b] show ?case by simp
qed

lemma collectFiles_rooted:
  assumes "\<forall>p\<in>set (storedPaths tree). rooted p"
  shows "\<forall>k\<in>fst ` set (snd (collectFiles tree act lh)). rooted k"
proof (cases "children tree")
  case None
  then show ?thesis by (simp add: collectFiles_def)
next
  case (Some roots)
  show ?thesis
  proof (cases "List.find (\<lambda>n. id_node n = ''development-folder'') roots")
    case None
    with Some show ?thesis by (simp add: collectFiles_def)
  next
    case dev: (Some dev)
    then have d: "dev \<in> set roots" by (auto simp: find_Some_iff)
    show ?thesis
    proof (cases "children dev")
      case None
      with Some dev show ?thesis by (simp add: collectFiles_def)
    next
      case cs: (Some cs)
      have "\<forall>n\<in>set cs. \<forall>p\<in>set (storedPaths n). rooted p"
        using storedPaths_children[OF cs] storedPaths_children[OF Some d] assms by blast
      from traverse_rooted(2)[OF _ this, of "([], [])" "folderPathOf lh act" "[]"]
      show ?thesis using Some dev cs by (simp add: collectFiles_def del: traverseAll.simps)
    qed
  qed
qed

lemma rooted_not_react:
  assumes "\<forall>k\<in>fst ` set af. rooted k" shows "\<not> isReactProject af"
proof -
  have "\<not> rooted ''package.json''" by (simp add: rooted_def startsWith_def)
  with assms have "''package.json'' \<notin> fst ` set af" by blast
  then show ?thesis by (simp add: isReactProject_def mapHas_isKey isKey_def)
qed

lemma unbundled_ignores_build:
  assumes "\<not> isReactProject (snd (collected state))"
  shows "bundleAndPreview build state forNewTab pv = bundleAndPreview build' state forNewTab pv"
  using assms by (simp add: bundleAndPreview_def assemble_def)

text \<open>
  C4. The test for the bundled path asks for the keys \<open>package.json\<close>,
  \<open>src/main.jsx\<close> and \<open>src/index.html\<close>, but \<open>collectFiles\<close> files every node
  under its full path. In a session that starts from a tree whose paths were assigned
  (the default tree or a stored one) and goes through any actions, no key is
  \<open>package.json\<close>: the tree is never taken for a React project, and the pass does
  the same whatever the bundling service would answer.
\<close>

theorem react_project_never_detected:
  "\<not> isReactProject (snd (collected (foldl reducer (s\<lparr>fileTree := assignFullPaths t b\<rparr>) actions)))
   \<and> bundleAndPreview build (foldl reducer (s\<lparr>fileTree := assignFullPaths t b\<rparr>) actions) forNewTab pv
     = bundleAndPreview build' (foldl reducer (s\<lparr>fileTree := assignFullPaths t b\<rparr>) actions) forNewTab pv"
proof -
  have "\<forall>p\<in>set (storedPaths (fileTree (s\<lparr>fileTree := assignFullPaths t b\<rparr>))). rooted p"
    by (simp add: storedPaths_assign)
  from collectFiles_rooted[OF session_storedPaths[OF this]]
  have "\<not> isReactProject (snd (collected (foldl reducer (s\<lparr>fileTree := assignFullPaths t b\<rparr>) actions)))"
    unfolding collected_def by (rule rooted_not_react)
  with unbundled_ignores_build show ?thesis by blast
qed

text \<open>
  A project with \<open>package.json\<close>, \<open>src/index.html\<close> and \<open>src/main.jsx\<close> at the
  root of the working folder. Its files are collected under \<open>development/\<close>, so the
  pass does not consult the bundling service, whether it would succeed or fail: it
  renders \<open>src/index.html\<close> through the path without bundling, with its original
  script tag and no tag for a bundle, and creates no script resource.
\<close>

theorem react_project_not_bundled:
  \<open>map fst (snd (collected rootReactSession))
     = [''development/package.json'', ''development/src/main.jsx'', ''development/src/index.html'']
   \<and> \<not> isReactProject (snd (collected rootReactSession))
   \<and> bundleAndPreview okBuild rootReactSession False initialPreview
     = (Inr None,
        initialPreview\<lparr>lastRenderedHtml := Some ''development/src/index.html'',
          srcdoc := ''<html><body><div id="root"></div><script type="module" src="/src/main.jsx"></script></body></html>''\<rparr>)
   \<and> bundleAndPreview failingBuild rootReactSession False initialPreview
     = bundleAndPreview okBuild rootReactSession False initialPreview
   \<and> blobStore (snd (bundleAndPreview okBuild rootReactSession True initialPreview))
     = [(''blob:0'',
         \<lparr>blobText = ''<html><body><div id="root"></div><script type="module" src="/src/main.jsx"></script></body></html>'',
          blobType = ''text/html''\<rparr>)]\<close>
proof -
  have i: "initialState\<lparr>fileTree := assignFullPaths defaultTree []\<rparr> = initialState"
    by (simp add: initialState_def)
  note t = react_project_never_detected
    [where s = initialState and t = defaultTree and b = "[]"
       and build = failingBuild and build' = okBuild and forNewTab = False and pv = initialPreview
       and actions =
         "[DELETE_NODE ''index-html'',
           DELETE_NODE ''styles-css'',
           ADD_NODE ''development-folder''
             (FileNode ''pkg'' ''package.json'' TFile (Some ''{}'') None ''development/package.json''),
           ADD_NODE ''development-folder''
             (FileNode ''src-folder'' ''src'' TFolder None
                (Some [FileNode ''main'' ''main.jsx'' TFile (Some ''render()'') None
                         ''development/src/main.jsx'',
                       FileNode ''page'' ''index.html'' TFile (Some rootIndexHtml) None
                         ''development/src/index.html''])
                ''development/src'')]",
     unfolded i, folded rootReactSession_def]
  have k: "map fst (snd (collected rootReactSession))
     = [''development/package.json'', ''development/src/main.jsx'', ''development/src/index.html'']"
    by code_simp
  have p: \<open>bundleAndPreview okBuild rootReactSession False initialPreview
     = (Inr None,
        initialPreview\<lparr>lastRenderedHtml := Some ''development/src/index.html'',
          srcdoc := ''<html><body><div id="root"></div><script type="module" src="/src/main.jsx"></script></body></html>''\<rparr>)\<close>
    by code_simp
  have n: \<open>blobStore (snd (bundleAndPreview okBuild rootReactSession True initialPreview))
     = [(''blob:0'',
         \<lparr>blobText = ''<html><body><div id="root"></div><script type="module" src="/src/main.jsx"></script></body></html>'',
          blobType = ''text/html''\<rparr>)]\<close>
    by code_simp
  from t k p n show ?thesis by blast
qed

end
